theory Spec2Isabelle
  imports Main "HOL-Library.Word"
begin

section \<open>Data model of terminal/Image.h\<close>

text \<open>
  The image layer of the terminal: reference-counted RGBA images owned by an
  \<open>ImagePool\<close>, handles (\<open>ImageRef\<close>) that count references, fragments cut from an
  image, and the renderer's cache. \<open>uint8_t\<close> is an 8-bit word. C++ \<open>int\<close> is a 32-bit
  word read in two's complement (\<open>sint\<close>). Signed overflow is undefined in C++; the
  model takes what the usual targets do: \<open>+\<close>, \<open>-\<close>, \<open>*\<close> and \<open>++\<close> wrap around, and a
  division whose quotient has no representation traps as a division by zero does.
\<close>

type_synonym uint8_t = "8 word"

type_synonym c_int = "32 word"

text \<open>\<open>Image::Data\<close>: \<open>std::vector<uint8_t>\<close>, raw RGBA data.\<close>

type_synonym Data = "uint8_t list"

text \<open>
  \<open>Size\<close>, \<open>Coordinate\<close> (terminal/Size.h, terminal/Commands.h) and \<open>RGBColor\<close> are
  declared in headers that are not part of the sources at hand. Their fields are the
  ones Image.h and Image.cpp read: \<open>size.width\<close>, \<open>size.height\<close>, \<open>_pos.row\<close>,
  \<open>_pos.column\<close>, \<open>color.red\<close>, \<open>color.green\<close>, \<open>color.blue\<close>; \<open>Coordinate\<close> is brace
  initialised row first.
\<close>

record Size =
  width :: c_int
  height :: c_int

record Coordinate =
  row :: c_int
  column :: c_int

record RGBColor =
  red :: uint8_t
  green :: uint8_t
  blue :: uint8_t

datatype ImageResize = NoResize | ResizeToFit | ResizeToFill | StretchToFill

datatype ImageAlignment =
  TopStart | TopCenter | TopEnd
  | MiddleStart | MiddleCenter | MiddleEnd
  | BottomStart | BottomCenter | BottomEnd

text \<open>
  A member \<open>m_\<close> of class \<open>Image\<close> is the field \<open>img_m\<close>, of \<open>ImagePool\<close> the field
  \<open>pool_m\<close>, of \<open>ImageFragment\<close> the field \<open>frag_m\<close>, of \<open>ImageRenderer\<close> the field
  \<open>rnd_m\<close>: a name cannot end in an underscore here.

  \<open>Image::Deleter\<close> is a \<open>std::function<void(Image const&)>\<close>. Two values occur in the
  sources: the empty default argument \<open>Deleter{}\<close> of the constructor, and the closure
  \<open>[this](Image const& _image) { remove(_image); }\<close> that \<open>ImagePool::create\<close> passes.
\<close>

datatype Deleter = EmptyDeleter | PoolRemove

record Image =
  img_data :: Data
  img_size :: Size
  img_deleter :: Deleter
  img_refCount :: c_int

text \<open>
  The sources at hand report no error of their own: no function in them validates its
  arguments and none throws. What can go wrong there is what C++ itself gives:
  undefined behaviour (a null or dangling pointer dereferenced, an index past the end
  of a vector, an integer division by zero or of \<open>INT_MIN\<close> by -1),
  \<open>std::bad_function_call\<close> from calling an empty \<open>std::function\<close>, and
  \<open>std::length_error\<close> from a vector resized or reserved to a negative \<open>int\<close> converted
  to \<open>size_t\<close>. Each is a value of \<open>fault\<close>, and a function that can meet one returns
  \<open>fault + 'a\<close>. \<open>InvalidCellSpan\<close> is the one error taken from the spec: it is what the
  spec has the division of sizes, whose code is not at hand, fail with.
\<close>

datatype fault =
  NullDereference
  | DanglingReference
  | OutOfBoundsAccess
  | DivisionByZero
  | DivisionOverflow
  | BadFunctionCall
  | LengthError
  | InvalidCellSpan

text \<open>
  An \<open>Image\<close> lives in a node of the pool's \<open>std::list<Image> images\<close>; its identity is
  the address of that node. The list is modelled with the addresses written out, in
  insertion order. The list \<open>instances\<close> is never touched by the sources.
\<close>

type_synonym addr = nat

record ImagePool =
  pool_images :: "(addr \<times> Image) list"

text \<open>\<open>ImageRef::image\<close>: a pointer to an Image, or \<open>nullptr\<close>.\<close>

type_synonym ImageRef = "addr option"

section \<open>Image\<close>

definition Image_ctor :: "Data \<Rightarrow> Size \<Rightarrow> Deleter \<Rightarrow> Image" where
  "Image_ctor d sz del = \<lparr>img_data = d, img_size = sz, img_deleter = del, img_refCount = 0\<rparr>"

text \<open>Reading and writing the Image at an address: the first node with that address.\<close>

definition image_at :: "addr \<Rightarrow> ImagePool \<Rightarrow> Image option" where
  "image_at a p = map_of (pool_images p) a"

fun put_image :: "addr \<Rightarrow> Image \<Rightarrow> (addr \<times> Image) list \<Rightarrow> (addr \<times> Image) list" where
  "put_image a img [] = []"
| "put_image a img (x # xs) = (if fst x = a then (a, img) # xs else x # put_image a img xs)"

definition refCount :: "addr \<Rightarrow> ImagePool \<Rightarrow> c_int option" where
  "refCount a p = map_option img_refCount (image_at a p)"

text \<open>
  \<open>ImagePool::remove\<close>: scan for the node whose address is the image's, erase it if
  found.
\<close>

fun remove_loop :: "addr \<Rightarrow> (addr \<times> Image) list \<Rightarrow> (addr \<times> Image) list" where
  "remove_loop a [] = []"
| "remove_loop a (x # xs) = (if fst x = a then xs else x # remove_loop a xs)"

definition remove :: "addr \<Rightarrow> ImagePool \<Rightarrow> ImagePool" where
  "remove a p = p\<lparr>pool_images := remove_loop a (pool_images p)\<rparr>"

text \<open>
  Modelled from the spec: \<open>ImagePool::imageCount()\<close> is declared in Image.h and its body
  is not in the sources; the spec has it return the "number of currently live Images".
\<close>

definition imageCount :: "ImagePool \<Rightarrow> int" where
  "imageCount p = int (length (pool_images p))"

text \<open>\<open>Image::ref\<close>: \<open>++refCount\<close>, on an \<open>int\<close>.\<close>

definition ref :: "addr \<Rightarrow> ImagePool \<Rightarrow> fault + ImagePool" where
  "ref a p =
     (case image_at a p of
        None \<Rightarrow> Inl DanglingReference
      | Some img \<Rightarrow>
          Inr (p\<lparr>pool_images := put_image a (img\<lparr>img_refCount := img_refCount img + 1\<rparr>) (pool_images p)\<rparr>))"

text \<open>Calling the deleter on \<open>*this\<close>.\<close>

fun invoke :: "Deleter \<Rightarrow> addr \<Rightarrow> ImagePool \<Rightarrow> fault + ImagePool" where
  "invoke EmptyDeleter a p = Inl BadFunctionCall"
| "invoke PoolRemove a p = Inr (remove a p)"

text \<open>
  \<open>Image::unref\<close>: \<open>--refCount\<close>, and the deleter is called when the count is then 0.
\<close>

definition unref :: "addr \<Rightarrow> ImagePool \<Rightarrow> fault + ImagePool" where
  "unref a p =
     (case image_at a p of
        None \<Rightarrow> Inl DanglingReference
      | Some img \<Rightarrow>
          (let img' = img\<lparr>img_refCount := img_refCount img - 1\<rparr>;
               p' = p\<lparr>pool_images := put_image a img' (pool_images p)\<rparr>
           in if img_refCount img' = 0 then invoke (img_deleter img') a p' else Inr p'))"

section \<open>ImageRef\<close>

text \<open>\<open>ImageRef(Image const&)\<close>: take the address, \<open>ref()\<close>.\<close>

definition ImageRef_ctor :: "addr \<Rightarrow> ImagePool \<Rightarrow> fault + (ImagePool \<times> ImageRef)" where
  "ImageRef_ctor a p =
     (case ref a p of Inl e \<Rightarrow> Inl e | Inr p' \<Rightarrow> Inr (p', Some a))"

text \<open>\<open>~ImageRef()\<close>: \<open>unref()\<close> unless the pointer is null.\<close>

definition ImageRef_dtor :: "ImageRef \<Rightarrow> ImagePool \<Rightarrow> fault + ImagePool" where
  "ImageRef_dtor r p = (case r of None \<Rightarrow> Inr p | Some a \<Rightarrow> unref a p)"

text \<open>\<open>ImageRef(ImageRef const& v)\<close>: copy the pointer, \<open>ref()\<close> through it unchecked.\<close>

definition ImageRef_copy_ctor :: "ImageRef \<Rightarrow> ImagePool \<Rightarrow> fault + (ImagePool \<times> ImageRef)" where
  "ImageRef_copy_ctor v p =
     (case v of
        None \<Rightarrow> Inl NullDereference
      | Some a \<Rightarrow> (case ref a p of Inl e \<Rightarrow> Inl e | Inr p' \<Rightarrow> Inr (p', Some a)))"

text \<open>
  \<open>ImageRef(ImageRef&& v)\<close>: take the pointer and null the source's; the result is the
  new handle and what is left in \<open>v\<close>.
\<close>

definition ImageRef_move_ctor :: "ImageRef \<Rightarrow> ImageRef \<times> ImageRef" where
  "ImageRef_move_ctor v = (v, None)"

section \<open>ImagePool\<close>

text \<open>
  The address \<open>emplace_back\<close> gets for the new node is one no node of the list has; the
  model takes the least one above them all.
\<close>

definition fresh_addr :: "(addr \<times> Image) list \<Rightarrow> addr" where
  "fresh_addr xs = Suc (foldr max (map fst xs) 0)"

definition emplace_back :: "Image \<Rightarrow> ImagePool \<Rightarrow> ImagePool" where
  "emplace_back img p = p\<lparr>pool_images := pool_images p @ [(fresh_addr (pool_images p), img)]\<rparr>"

text \<open>
  \<open>ImagePool::create(Image::Data, Size)\<close>: append the Image with the pool's own deleter,
  return a handle to \<open>images.back()\<close>.
\<close>

definition create :: "Data \<Rightarrow> Size \<Rightarrow> ImagePool \<Rightarrow> fault + (ImagePool \<times> ImageRef)" where
  "create d sz p =
     (let p1 = emplace_back (Image_ctor d sz PoolRemove) p
      in ImageRef_ctor (fst (last (pool_images p1))) p1)"

section \<open>Creating an image from RGB colours\<close>

text \<open>
  \<open>data.resize(n)\<close> on the empty vector, with \<open>n\<close> an \<open>int\<close>: \<open>n\<close> zero bytes; a negative
  \<open>n\<close> becomes a \<open>size_t\<close> beyond \<open>max_size()\<close>.
\<close>

definition resize :: "c_int \<Rightarrow> fault + Data" where
  "resize n = (if sint n < 0 then Inl LengthError else Inr (replicate (nat (sint n)) 0))"

text \<open>\<open>data[i] = v\<close>: the index must be below the size.\<close>

definition store :: "nat \<Rightarrow> uint8_t \<Rightarrow> Data \<Rightarrow> fault + Data" where
  "store i v d = (if i < length d then Inr (d[i := v]) else Inl OutOfBoundsAccess)"

text \<open>The loop over the colours: four stores each, \<open>i\<close> counting up.\<close>

fun fill :: "RGBColor list \<Rightarrow> nat \<Rightarrow> Data \<Rightarrow> fault + Data" where
  "fill [] i d = Inr d"
| "fill (color # cs) i d =
     (case store i (red color) d of
        Inl e \<Rightarrow> Inl e
      | Inr d1 \<Rightarrow>
          (case store (i + 1) (green color) d1 of
             Inl e \<Rightarrow> Inl e
           | Inr d2 \<Rightarrow>
               (case store (i + 2) (blue color) d2 of
                  Inl e \<Rightarrow> Inl e
                | Inr d3 \<Rightarrow>
                    (case store (i + 3) 0xFF d3 of
                       Inl e \<Rightarrow> Inl e
                     | Inr d4 \<Rightarrow> fill cs (i + 4) d4))))"

text \<open>
  \<open>ImagePool::create(std::vector<RGBColor> const&, Size)\<close>: named \<open>create_rgb\<close>, since
  the two overloads cannot share a name here. The length \<open>width * height * 4\<close> is a
  product of \<open>int\<close>.
\<close>

definition create_rgb :: "RGBColor list \<Rightarrow> Size \<Rightarrow> ImagePool \<Rightarrow> fault + (ImagePool \<times> ImageRef)" where
  "create_rgb cs sz p =
     (case resize (width sz * height sz * 4) of
        Inl e \<Rightarrow> Inl e
      | Inr d0 \<Rightarrow>
          (case fill cs 0 d0 of
             Inl e \<Rightarrow> Inl e
           | Inr d \<Rightarrow> create d sz p))"

text \<open>The RGBA quad of a colour, fully opaque, and the quads of a colour array.\<close>

definition rgba :: "RGBColor \<Rightarrow> Data" where
  "rgba c = [red c, green c, blue c, 0xFF]"

definition rgba_all :: "RGBColor list \<Rightarrow> Data" where
  "rgba_all cs = concat (map rgba cs)"

section \<open>ImageFragment\<close>

record ImageFragment =
  frag_image :: ImageRef
  frag_offset :: Coordinate
  frag_size :: Size

text \<open>
  \<open>ImageFragment(Image const&, Coordinate, Size)\<close>: the member \<open>image\<close> is an \<open>ImageRef\<close>
  constructed from the Image, which counts a reference.
\<close>

definition ImageFragment_ctor ::
  "addr \<Rightarrow> Coordinate \<Rightarrow> Size \<Rightarrow> ImagePool \<Rightarrow> fault + (ImagePool \<times> ImageFragment)" where
  "ImageFragment_ctor a off sz p =
     (case ImageRef_ctor a p of
        Inl e \<Rightarrow> Inl e
      | Inr (p', r) \<Rightarrow> Inr (p', \<lparr>frag_image = r, frag_offset = off, frag_size = sz\<rparr>))"

text \<open>
  \<open>std::copy(&full[start], &full[start] + n, back_inserter(..))\<close> with \<open>start\<close> and \<open>n\<close>
  of type \<open>int\<close>: the bytes copied. \<open>full[start]\<close> needs an index below the size, and
  the range must lie in the buffer.
\<close>

definition copy_range :: "Data \<Rightarrow> c_int \<Rightarrow> c_int \<Rightarrow> fault + Data" where
  "copy_range full start n =
     (if 0 \<le> sint start \<and> sint start < int (length full) \<and> 0 \<le> sint n
         \<and> sint start + sint n \<le> int (length full)
      then Inr (take (nat (sint n)) (drop (nat (sint start)) full))
      else Inl OutOfBoundsAccess)"

text \<open>
  \<open>fragData.reserve(n)\<close> with \<open>n\<close> an \<open>int\<close>: a negative \<open>n\<close> becomes a \<open>size_t\<close> beyond
  \<open>max_size()\<close>; otherwise the contents are as they were.
\<close>

definition reserve :: "c_int \<Rightarrow> Data \<Rightarrow> fault + Data" where
  "reserve n d = (if sint n < 0 then Inl LengthError else Inr d)"

text \<open>
  The loop of \<open>ImageFragment::data()\<close>, \<open>for (int y = 0; y < size.height; ++y)\<close>: row
  \<open>y\<close> is read at \<open>y * size.width * 4\<close>, \<open>size.width * 4\<close> bytes long, and appended.
\<close>

function data_loop :: "Data \<Rightarrow> Size \<Rightarrow> c_int \<Rightarrow> Data \<Rightarrow> fault + Data" where
  "data_loop full sz y fragData =
     (if sint y < sint (height sz) then
        (case copy_range full (y * width sz * 4) (width sz * 4) of
           Inl e \<Rightarrow> Inl e
         | Inr bytes \<Rightarrow> data_loop full sz (y + 1) (fragData @ bytes))
      else Inr fragData)"
  by pat_completeness auto
termination
proof (relation "measure (\<lambda>(full, sz, y, fragData). nat (sint (height sz) - sint y))")
  show "wf (measure (\<lambda>(full, sz, y, fragData). nat (sint (height sz) - sint y)))"
    by simp
next
  fix full :: Data and sz :: Size and y :: c_int and fragData bytes :: Data
  assume below: "sint y < sint (height sz)"
  have up: "sint y + 1 < 2 ^ 31"
    using below sint_lt [of "height sz"] by simp
  have low: "- (2 ^ 31) \<le> sint y + 1"
    using sint_ge [of y] by simp
  have "sint (y + 1) = signed_take_bit 31 (sint y + 1)"
    by (simp add: sint_word_ariths)
  also have "signed_take_bit 31 (sint y + 1) = sint y + 1"
    using low up by (rule signed_take_bit_int_eq_self)
  finally have "sint (y + 1) = sint y + 1" .
  with below show "((full, sz, y + 1, fragData @ bytes), (full, sz, y, fragData))
      \<in> measure (\<lambda>(full, sz, y, fragData). nat (sint (height sz) - sint y))"
    by simp
qed

declare data_loop.simps [simp del]

text \<open>
  \<open>ImageFragment::data()\<close>: the buffer of the Image the handle refers to, the empty
  \<open>fragData\<close> reserved to \<open>size.width * size.height * 4\<close>, then the loop.
\<close>

definition ImageFragment_data :: "ImageFragment \<Rightarrow> ImagePool \<Rightarrow> fault + Data" where
  "ImageFragment_data f p =
     (case frag_image f of
        None \<Rightarrow> Inl NullDereference
      | Some a \<Rightarrow>
          (case image_at a p of
             None \<Rightarrow> Inl DanglingReference
           | Some img \<Rightarrow>
               (case reserve (width (frag_size f) * height (frag_size f) * 4) [] of
                  Inl e \<Rightarrow> Inl e
                | Inr fragData \<Rightarrow> data_loop (img_data img) (frag_size f) 0 fragData)))"

section \<open>RasterizedImage\<close>

text \<open>
  \<open>/\<close> on \<open>int\<close> truncates towards zero; a zero divisor, and \<open>INT_MIN / -1\<close>, are
  undefined behaviour.
\<close>

definition int_quot :: "int \<Rightarrow> int \<Rightarrow> int" where
  "int_quot a b = (if (a < 0) = (b < 0) then \<bar>a\<bar> div \<bar>b\<bar> else - (\<bar>a\<bar> div \<bar>b\<bar>))"

definition int_div :: "c_int \<Rightarrow> c_int \<Rightarrow> fault + c_int" where
  "int_div a b =
     (if b = 0 then Inl DivisionByZero
      else if sint a = - 2147483648 \<and> sint b = - 1 then Inl DivisionOverflow
      else Inr (word_of_int (int_quot (sint a) (sint b))))"

text \<open>
  Modelled from the spec: \<open>operator/\<close> on \<open>Size\<close> belongs to terminal/Size.h, which is not
  in the sources. The spec has \<open>image.size() / cellSpan\<close> as "integer division, per axis
  independently", "using integer truncation", and has it fail "with \<open>InvalidCellSpan\<close>
  if either cellSpan dimension is zero".
\<close>

definition Size_div :: "Size \<Rightarrow> Size \<Rightarrow> fault + Size" where
  "Size_div a b =
     (if width b = 0 \<or> height b = 0 then Inl InvalidCellSpan
      else Inr \<lparr>width = word_of_int (int_quot (sint (width a)) (sint (width b))),
                height = word_of_int (int_quot (sint (height a)) (sint (height b)))\<rparr>)"

text \<open>The member \<open>image\<close> is the field \<open>r_image\<close>.\<close>

record RasterizedImage =
  r_image :: ImageRef
  cellSpan :: Size
  alignmentPolicy :: ImageAlignment
  resizePolicy :: ImageResize

text \<open>\<open>RasterizedImage::cellSize()\<close>: \<open>image.get().size() / cellSpan\<close> and nothing else.\<close>

definition cellSize :: "RasterizedImage \<Rightarrow> ImagePool \<Rightarrow> fault + Size" where
  "cellSize ri p =
     (case r_image ri of
        None \<Rightarrow> Inl NullDereference
      | Some a \<Rightarrow>
          (case image_at a p of
             None \<Rightarrow> Inl DanglingReference
           | Some img \<Rightarrow> Size_div (img_size img) (cellSpan ri)))"

text \<open>
  \<open>RasterizedImage::fragment(Coordinate _pos)\<close>: the offset is computed from the position
  as it comes, in \<open>int\<close>, and the fragment is constructed with the cell span as its size.
\<close>

definition fragment ::
  "RasterizedImage \<Rightarrow> Coordinate \<Rightarrow> ImagePool \<Rightarrow> fault + (ImagePool \<times> ImageFragment)" where
  "fragment ri pos p =
     (case r_image ri of
        None \<Rightarrow> Inl NullDereference
      | Some a \<Rightarrow>
          (case image_at a p of
             None \<Rightarrow> Inl DanglingReference
           | Some img \<Rightarrow>
               (case int_div (width (img_size img)) (width (cellSpan ri)) of
                  Inl e \<Rightarrow> Inl e
                | Inr cellUnitWidth \<Rightarrow>
                    (let pixelOffset = \<lparr>row = row pos * width (img_size img),
                                        column = column pos * cellUnitWidth\<rparr>
                     in ImageFragment_ctor a pixelOffset (cellSpan ri) p))))"

section \<open>ImageRenderer\<close>

text \<open>\<open>ImageRenderer::Slice\<close>.\<close>

record Slice =
  offset :: Size

text \<open>
  Modelled from the spec: \<open>crispy::atlas::MetadataTextureAtlas\<close> and its \<open>clear()\<close> belong
  to crispy/Atlas.h, which is not in the sources. ImageRenderer.h instantiates it as
  \<open>MetadataTextureAtlas<ImageRef, Slice>\<close>: the key of an entry is a handle, its metadata
  a \<open>Slice\<close>. The spec has the atlas cache map its keys to a "cached texture region" (a
  number here), and \<open>clearCache()\<close> "discards all atlas cache entries". An entry that is
  discarded is destroyed with its key, so \<open>~ImageRef()\<close> runs for the key of each entry,
  in the order of the entries.
\<close>

type_synonym TextureAtlas = "(ImageRef \<times> nat \<times> Slice) list"



text \<open>
  The renderer's own state. The reference \<open>commandListener\<close> is to an object outside
  the renderer and is left out. The handles in the cache are handles to Images of the
  renderer's pool.
\<close>

record ImageRenderer =
  rnd_imagePool :: ImagePool
  rnd_cellSize :: Size
  rnd_atlas :: TextureAtlas


definition setCellSize :: "Size \<Rightarrow> ImageRenderer \<Rightarrow> ImageRenderer" where
  "setCellSize cs r = r\<lparr>rnd_cellSize := cs\<rparr>"



section \<open>Assignment between handles\<close>

text \<open>
  The assignment operators compare the addresses of the two \<open>ImageRef\<close> objects
  (\<open>&v != this\<close>), so the handles themselves need an identity: a store maps the
  location of an \<open>ImageRef\<close> object to the pointer it holds.
\<close>

type_synonym href = nat

record world =
  pool :: ImagePool
  refs :: "href \<Rightarrow> ImageRef"

text \<open>
  \<open>ImageRef::operator=(ImageRef const& v)\<close>: unless it is a self assignment, \<open>unref()\<close>
  through the old pointer, copy the pointer of \<open>v\<close>, \<open>ref()\<close> through it; no pointer
  is checked.
\<close>

definition ImageRef_copy_assign :: "href \<Rightarrow> href \<Rightarrow> world \<Rightarrow> fault + world" where
  "ImageRef_copy_assign this v w =
     (if v \<noteq> this then
        (case refs w this of
           None \<Rightarrow> Inl NullDereference
         | Some a \<Rightarrow>
             (case unref a (pool w) of
                Inl e \<Rightarrow> Inl e
              | Inr p1 \<Rightarrow>
                  (case refs w v of
                     None \<Rightarrow> Inl NullDereference
                   | Some b \<Rightarrow>
                       (case ref b p1 of
                          Inl e \<Rightarrow> Inl e
                        | Inr p2 \<Rightarrow> Inr (w\<lparr>pool := p2, refs := (refs w)(this := Some b)\<rparr>)))))
      else Inr w)"

text \<open>
  \<open>ImageRef::operator=(ImageRef&& v)\<close>: unless it is a self assignment, overwrite the
  pointer with that of \<open>v\<close> and null the pointer of \<open>v\<close>.
\<close>

definition ImageRef_move_assign :: "href \<Rightarrow> href \<Rightarrow> world \<Rightarrow> world" where
  "ImageRef_move_assign this v w =
     (if v \<noteq> this then w\<lparr>refs := ((refs w)(this := refs w v))(v := None)\<rparr> else w)"

section \<open>Histories of one image's handles\<close>

text \<open>
  What happens to the handles of one image: a handle to it is copy constructed, or a
  handle to it is destroyed. \<open>handles_exist n es\<close> says that the events \<open>es\<close> can
  happen when \<open>n\<close> handles refer to the image: each event needs a handle that is
  still there.
\<close>

datatype handle_event = CopyConstruct | Destroy

fun handle_events :: "addr \<Rightarrow> handle_event list \<Rightarrow> ImagePool \<Rightarrow> fault + ImagePool" where
  "handle_events a [] p = Inr p"
| "handle_events a (CopyConstruct # es) p =
     (case ImageRef_copy_ctor (Some a) p of
        Inl e \<Rightarrow> Inl e
      | Inr (p', h) \<Rightarrow> handle_events a es p')"
| "handle_events a (Destroy # es) p =
     (case ImageRef_dtor (Some a) p of
        Inl e \<Rightarrow> Inl e
      | Inr p' \<Rightarrow> handle_events a es p')"

fun handles_exist :: "nat \<Rightarrow> handle_event list \<Rightarrow> bool" where
  "handles_exist n [] = True"
| "handles_exist n (CopyConstruct # es) = (0 < n \<and> handles_exist (Suc n) es)"
| "handles_exist n (Destroy # es) = (0 < n \<and> handles_exist (n - 1) es)"

text \<open>
  \<open>most_handles n es\<close> is the greatest number of handles that refer to the image at
  any time of the history \<open>es\<close>, when \<open>n\<close> do at its start.
\<close>

fun most_handles :: "nat \<Rightarrow> handle_event list \<Rightarrow> nat" where
  "most_handles n [] = n"
| "most_handles n (CopyConstruct # es) = max n (most_handles (Suc n) es)"
| "most_handles n (Destroy # es) = max n (most_handles (n - 1) es)"

section \<open>Helper facts about int\<close>

lemma sint_in_range:
  "- 2147483648 \<le> k \<Longrightarrow> k \<le> 2147483647 \<Longrightarrow> sint (word_of_int k :: c_int) = k"
  by (simp add: sint_sbintrunc' signed_take_bit_int_eq_self)

lemma c_int_bounds: "- 2147483648 \<le> sint (x :: c_int) \<and> sint x \<le> 2147483647"
  using sint_ge [of x] sint_lt [of x] by simp

lemma sint_mult:
  assumes "- 2147483648 \<le> sint a * sint b" and "sint a * sint b \<le> 2147483647"
  shows "sint (a * b :: c_int) = sint a * sint b"
proof -
  have "a * b = word_of_int (sint a * sint b)" by simp
  then show ?thesis using assms by (simp only: sint_in_range)
qed

lemma sint_mult4:
  assumes "- 2147483648 \<le> sint a * sint b * 4" and "sint a * sint b * 4 \<le> 2147483647"
  shows "sint (a * b * 4 :: c_int) = sint a * sint b * 4"
proof -
  have "a * b * 4 = word_of_int (sint a * sint b * 4)" by simp
  then show ?thesis using assms by (simp only: sint_in_range)
qed

lemma sint_times4:
  assumes "- 2147483648 \<le> sint a * 4" and "sint a * 4 \<le> 2147483647"
  shows "sint (a * 4 :: c_int) = sint a * 4"
proof -
  have "a * 4 = word_of_int (sint a * 4)" by simp
  then show ?thesis using assms by (simp only: sint_in_range)
qed

lemma sint_succ:
  assumes "sint (y :: c_int) < sint (h :: c_int)"
  shows "sint (y + 1) = sint y + 1"
proof -
  have "y + 1 = word_of_int (sint y + 1)" by simp
  moreover have "sint y + 1 \<le> 2147483647" using assms c_int_bounds [of h] by linarith
  moreover have "- 2147483648 \<le> sint y + 1" using c_int_bounds [of y] by linarith
  ultimately show ?thesis by (simp only: sint_in_range)
qed

lemma sint_of_nat_small: "n \<le> 2147483647 \<Longrightarrow> sint (of_nat n :: c_int) = int n"
proof -
  assume "n \<le> 2147483647"
  then have "sint (word_of_int (int n) :: c_int) = int n"
    by (intro sint_in_range) simp_all
  then show ?thesis by simp
qed

lemma of_nat_eq_one: "n \<le> 2147483647 \<Longrightarrow> (of_nat n :: c_int) = 1 \<longleftrightarrow> n = 1"
proof
  assume n: "n \<le> 2147483647" and "(of_nat n :: c_int) = 1"
  then have "sint (of_nat n :: c_int) = sint (1 :: c_int)" by simp
  with n show "n = 1" by (simp add: sint_of_nat_small)
qed simp

section \<open>Helper facts about the pool's list\<close>

lemma foldr_max_ge: "x \<in> set ns \<Longrightarrow> x \<le> foldr max ns (0::nat)"
  by (induction ns) (auto simp: max_def)

lemma fresh_addr_new: "fresh_addr xs \<notin> fst ` set xs"
proof
  assume "fresh_addr xs \<in> fst ` set xs"
  then have "fresh_addr xs \<in> set (map fst xs)" by simp
  then have "fresh_addr xs \<le> foldr max (map fst xs) 0" by (rule foldr_max_ge)
  then show False by (simp add: fresh_addr_def)
qed

lemma map_of_append_fresh:
  "a \<notin> fst ` set xs \<Longrightarrow> map_of (xs @ [(a, v)]) a = Some v"
  by (induction xs) auto

lemma put_image_append_fresh:
  "a \<notin> fst ` set xs \<Longrightarrow> put_image a w (xs @ [(a, v)]) = xs @ [(a, w)]"
  by (induction xs) auto

lemma length_put_image: "length (put_image a img xs) = length xs"
  by (induction xs) auto

lemma map_of_put_image_same:
  "map_of xs a = Some v \<Longrightarrow> map_of (put_image a w xs) a = Some w"
  by (induction xs) (auto split: if_splits)

lemma map_of_put_image_other:
  "b \<noteq> a \<Longrightarrow> map_of (put_image a w xs) b = map_of xs b"
  by (induction xs) auto

lemma length_remove_loop:
  "map_of xs a = Some v \<Longrightarrow> length (remove_loop a xs) + 1 = length xs"
  by (induction xs) (auto split: if_splits)

lemma ref_emplace_back:
  "ref (fresh_addr (pool_images p)) (emplace_back img p) =
     Inr (p\<lparr>pool_images := pool_images p @
            [(fresh_addr (pool_images p), img\<lparr>img_refCount := img_refCount img + 1\<rparr>)]\<rparr>)"
proof -
  have new: "fresh_addr (pool_images p) \<notin> fst ` set (pool_images p)"
    by (rule fresh_addr_new)
  have "image_at (fresh_addr (pool_images p)) (emplace_back img p) = Some img"
    unfolding image_at_def emplace_back_def using map_of_append_fresh [OF new] by simp
  then show ?thesis
    unfolding ref_def emplace_back_def using put_image_append_fresh [OF new] by simp
qed

lemma create_eq:
  "create d sz p =
     Inr (p\<lparr>pool_images := pool_images p @
            [(fresh_addr (pool_images p),
              \<lparr>img_data = d, img_size = sz, img_deleter = PoolRemove, img_refCount = 1\<rparr>)]\<rparr>,
          Some (fresh_addr (pool_images p)))"
proof -
  have "fst (last (pool_images (emplace_back (Image_ctor d sz PoolRemove) p)))
          = fresh_addr (pool_images p)"
    by (simp add: emplace_back_def)
  then show ?thesis
    unfolding create_def Let_def ImageRef_ctor_def
    by (simp add: ref_emplace_back Image_ctor_def)
qed

lemma map_of_remove_loop_other:
  "b \<noteq> a \<Longrightarrow> map_of (remove_loop a xs) b = map_of xs b"
  by (induction xs) auto

lemma remove_loop_put_image:
  "remove_loop a (put_image a w xs) = remove_loop a xs"
  by (induction xs) auto

lemma remove_loop_append_fresh:
  "a \<notin> fst ` set xs \<Longrightarrow> remove_loop a (xs @ [(a, v)]) = xs"
  by (induction xs) auto

lemma ref_live:
  "image_at a p = Some img \<Longrightarrow>
   ref a p = Inr (p\<lparr>pool_images := put_image a (img\<lparr>img_refCount := img_refCount img + 1\<rparr>) (pool_images p)\<rparr>)"
  by (simp add: ref_def)

lemma unref_not_last:
  "image_at a p = Some img \<Longrightarrow> img_refCount img \<noteq> 1 \<Longrightarrow>
   unref a p = Inr (p\<lparr>pool_images := put_image a (img\<lparr>img_refCount := img_refCount img - 1\<rparr>) (pool_images p)\<rparr>)"
  by (simp add: unref_def Let_def)

lemma unref_last:
  "image_at a p = Some img \<Longrightarrow> img_refCount img = 1 \<Longrightarrow>
   unref a p = invoke (img_deleter img) a
     (p\<lparr>pool_images := put_image a (img\<lparr>img_refCount := 0\<rparr>) (pool_images p)\<rparr>)"
  by (simp add: unref_def Let_def)

lemma image_at_put_same:
  "image_at a p = Some img \<Longrightarrow>
   image_at a (p\<lparr>pool_images := put_image a img' (pool_images p)\<rparr>) = Some img'"
  by (simp add: image_at_def map_of_put_image_same)

lemma image_at_put_other:
  "b \<noteq> a \<Longrightarrow> image_at b (p\<lparr>pool_images := put_image a img' (pool_images p)\<rparr>) = image_at b p"
  by (simp add: image_at_def map_of_put_image_other)

lemma image_at_remove_other:
  "b \<noteq> a \<Longrightarrow> image_at b (remove a p) = image_at b p"
  by (simp add: image_at_def remove_def map_of_remove_loop_other)

lemma image_at_ref_other:
  "ref b p = Inr p' \<Longrightarrow> a \<noteq> b \<Longrightarrow> image_at a p' = image_at a p"
  by (auto simp: ref_def image_at_put_other split: option.splits)

lemma image_at_unref_other:
  assumes "unref b p = Inr p'" and "a \<noteq> b"
  shows "image_at a p' = image_at a p"
proof (cases "image_at b p")
  case None
  with assms show ?thesis by (simp add: unref_def)
next
  case (Some img)
  let ?q = "p\<lparr>pool_images := put_image b (img\<lparr>img_refCount := img_refCount img - 1\<rparr>) (pool_images p)\<rparr>"
  have q: "image_at a ?q = image_at a p"
    using assms(2) by (rule image_at_put_other)
  show ?thesis
  proof (cases "img_refCount img = 1")
    case False
    with Some assms(1) have "p' = ?q" by (simp add: unref_not_last)
    with q show ?thesis by simp
  next
    case True
    with Some assms(1) have "invoke (img_deleter img) b ?q = Inr p'"
      by (simp add: unref_last)
    then have "p' = remove b ?q"
      by (cases "img_deleter img") auto
    with q assms(2) show ?thesis by (simp add: image_at_remove_other)
  qed
qed

lemma handles_exist_none:
  assumes "handles_exist 0 es"
  shows "es = []"
proof (cases es)
  case Nil
  then show ?thesis .
next
  case (Cons e es')
  with assms show ?thesis by (cases e) simp_all
qed

lemma most_handles_ge: "n \<le> most_handles n es"
proof (cases es)
  case Nil
  then show ?thesis by simp
next
  case (Cons e es')
  then show ?thesis by (cases e) simp_all
qed

lemma handle_events_counts:
  assumes "handles_exist n es" and "0 < n" and "most_handles n es \<le> 2147483647"
    and "image_at a p = Some img" and "img_refCount img = of_nat n"
    and "img_deleter img = PoolRemove"
    and "a \<notin> fst ` set (remove_loop a (pool_images p))"
  shows "\<exists>p1. handle_events a es p = Inr p1 \<and>
           (if count_list es Destroy < n + count_list es CopyConstruct
            then map_option sint (refCount a p1) =
                   Some (int n + int (count_list es CopyConstruct) - int (count_list es Destroy))
                 \<and> imageCount p1 = imageCount p
            else image_at a p1 = None \<and> imageCount p1 = imageCount p - 1)"
  using assms
proof (induction es arbitrary: n p img)
  case Nil
  then show ?case by (simp add: refCount_def sint_of_nat_small)
next
  case (Cons e es)
  have small: "n \<le> 2147483647"
    using most_handles_ge [of n "e # es"] Cons.prems(3) by linarith
  show ?case
  proof (cases e)
    case CopyConstruct
    let ?img' = "img\<lparr>img_refCount := img_refCount img + 1\<rparr>"
    let ?p' = "p\<lparr>pool_images := put_image a ?img' (pool_images p)\<rparr>"
    have step: "ImageRef_copy_ctor (Some a) p = Inr (?p', Some a)"
      using Cons.prems(4) by (simp add: ImageRef_copy_ctor_def ref_live)
    have ex: "handles_exist (Suc n) es"
      using Cons.prems(1) CopyConstruct by simp
    have most: "most_handles (Suc n) es \<le> 2147483647"
      using Cons.prems(3) CopyConstruct by simp
    have at: "image_at a ?p' = Some ?img'"
      using Cons.prems(4) by (rule image_at_put_same)
    have cnt: "img_refCount ?img' = of_nat (Suc n)"
      using Cons.prems(5) by simp
    have del: "img_deleter ?img' = PoolRemove"
      using Cons.prems(6) by simp
    have once: "a \<notin> fst ` set (remove_loop a (pool_images ?p'))"
      using Cons.prems(7) by (simp add: remove_loop_put_image)
    have len: "imageCount ?p' = imageCount p"
      by (simp add: imageCount_def length_put_image)
    from Cons.IH [OF ex _ most at cnt del once] obtain p1 where
      run: "handle_events a es ?p' = Inr p1" and
      res: "if count_list es Destroy < Suc n + count_list es CopyConstruct
            then map_option sint (refCount a p1) =
                   Some (int (Suc n) + int (count_list es CopyConstruct) - int (count_list es Destroy))
                 \<and> imageCount p1 = imageCount ?p'
            else image_at a p1 = None \<and> imageCount p1 = imageCount ?p' - 1"
      by auto
    have "handle_events a (e # es) p = Inr p1"
      using CopyConstruct step run by simp
    moreover have "count_list (e # es) Destroy = count_list es Destroy"
      and "count_list (e # es) CopyConstruct = Suc (count_list es CopyConstruct)"
      using CopyConstruct by simp_all
    ultimately show ?thesis
      using res len by (auto split: if_splits)
  next
    case Destroy
    show ?thesis
    proof (cases "n = 1")
      case True
      let ?q = "p\<lparr>pool_images := put_image a (img\<lparr>img_refCount := 0\<rparr>) (pool_images p)\<rparr>"
      have "handles_exist 0 es"
        using Cons.prems(1) Destroy True by simp
      then have es: "es = []" by (rule handles_exist_none)
      have "img_refCount img = 1"
        using Cons.prems(5) True by simp
      with Cons.prems(4) have "unref a p = invoke (img_deleter img) a ?q"
        by (simp add: unref_last)
      then have step: "ImageRef_dtor (Some a) p = Inr (remove a ?q)"
        using Cons.prems(6) by (simp add: ImageRef_dtor_def)
      have gone: "image_at a (remove a ?q) = None"
        using Cons.prems(7)
        by (simp add: image_at_def remove_def remove_loop_put_image map_of_eq_None_iff)
      have "map_of (pool_images p) a = Some img"
        using Cons.prems(4) by (simp add: image_at_def)
      then have "length (remove_loop a (pool_images p)) + 1 = length (pool_images p)"
        by (rule length_remove_loop)
      then have len: "imageCount (remove a ?q) = imageCount p - 1"
        by (simp add: imageCount_def remove_def remove_loop_put_image)
      show ?thesis
        using Destroy True es step gone len by simp
    next
      case False
      with Cons.prems(2) have big: "1 < n" by simp
      have not1: "img_refCount img \<noteq> 1"
        using Cons.prems(5) False of_nat_eq_one [OF small] by simp
      let ?img' = "img\<lparr>img_refCount := img_refCount img - 1\<rparr>"
      let ?p' = "p\<lparr>pool_images := put_image a ?img' (pool_images p)\<rparr>"
      have "unref a p = Inr ?p'"
        using Cons.prems(4) not1 by (rule unref_not_last)
      then have step: "ImageRef_dtor (Some a) p = Inr ?p'"
        by (simp add: ImageRef_dtor_def)
      have ex: "handles_exist (n - 1) es"
        using Cons.prems(1) Destroy by simp
      have most: "most_handles (n - 1) es \<le> 2147483647"
        using Cons.prems(3) Destroy by simp
      have pos: "0 < n - 1" using big by simp
      have at: "image_at a ?p' = Some ?img'"
        using Cons.prems(4) by (rule image_at_put_same)
      have cnt: "img_refCount ?img' = of_nat (n - 1)"
        using Cons.prems(5) big by simp
      have del: "img_deleter ?img' = PoolRemove"
        using Cons.prems(6) by simp
      have once: "a \<notin> fst ` set (remove_loop a (pool_images ?p'))"
        using Cons.prems(7) by (simp add: remove_loop_put_image)
      have len: "imageCount ?p' = imageCount p"
        by (simp add: imageCount_def length_put_image)
      from Cons.IH [OF ex pos most at cnt del once] obtain p1 where
        run: "handle_events a es ?p' = Inr p1" and
        res: "if count_list es Destroy < n - 1 + count_list es CopyConstruct
              then map_option sint (refCount a p1) =
                     Some (int (n - 1) + int (count_list es CopyConstruct) - int (count_list es Destroy))
                   \<and> imageCount p1 = imageCount ?p'
              else image_at a p1 = None \<and> imageCount p1 = imageCount ?p' - 1"
        by auto
      have "handle_events a (e # es) p = Inr p1"
        using Destroy step run by simp
      moreover have "count_list (e # es) Destroy = Suc (count_list es Destroy)"
        and "count_list (e # es) CopyConstruct = count_list es CopyConstruct"
        using Destroy by simp_all
      ultimately show ?thesis
        using res len big by (auto split: if_splits)
    qed
  qed
qed

lemma put_image_twice: "put_image a x (put_image a y xs) = put_image a x xs"
  by (induction xs) auto

lemma put_image_same: "map_of xs a = Some v \<Longrightarrow> put_image a v xs = xs"
  by (induction xs) (auto split: if_splits)

lemma handles_exist_copies: "0 < n \<Longrightarrow> handles_exist n (replicate k CopyConstruct)"
  by (induction k arbitrary: n) simp_all

lemma handle_events_copies:
  "image_at a p = Some img \<Longrightarrow>
   handle_events a (replicate n CopyConstruct) p =
     Inr (p\<lparr>pool_images :=
            put_image a (img\<lparr>img_refCount := img_refCount img + of_nat n\<rparr>) (pool_images p)\<rparr>)"
proof (induction n arbitrary: p img)
  case 0
  then have "put_image a img (pool_images p) = pool_images p"
    by (simp add: image_at_def put_image_same)
  then show ?case by simp
next
  case (Suc n)
  let ?img' = "img\<lparr>img_refCount := img_refCount img + 1\<rparr>"
  let ?p' = "p\<lparr>pool_images := put_image a ?img' (pool_images p)\<rparr>"
  have step: "ImageRef_copy_ctor (Some a) p = Inr (?p', Some a)"
    using Suc.prems by (simp add: ImageRef_copy_ctor_def ref_live)
  have at: "image_at a ?p' = Some ?img'"
    using Suc.prems by (rule image_at_put_same)
  have "handle_events a (replicate n CopyConstruct) ?p' =
     Inr (?p'\<lparr>pool_images :=
            put_image a (?img'\<lparr>img_refCount := img_refCount ?img' + of_nat n\<rparr>) (pool_images ?p')\<rparr>)"
    using at by (rule Suc.IH)
  with step show ?case
    by (simp add: put_image_twice ac_simps)
qed

lemma length_rgba_all: "length (rgba_all cs) = 4 * length cs"
  by (induction cs) (simp_all add: rgba_all_def rgba_def)

lemma store4:
  assumes "i + 4 \<le> length d"
  shows "\<exists>d4. (case store i r d of
            Inl e \<Rightarrow> Inl e
          | Inr d1 \<Rightarrow>
              (case store (i + 1) g d1 of
                 Inl e \<Rightarrow> Inl e
               | Inr d2 \<Rightarrow>
                   (case store (i + 2) b d2 of
                      Inl e \<Rightarrow> Inl e
                    | Inr d3 \<Rightarrow>
                        (case store (i + 3) a d3 of
                           Inl e \<Rightarrow> Inl e
                         | Inr d4 \<Rightarrow> k d4)))) = k (take i d @ [r, g, b, a] @ drop (i + 4) d)"
proof -
  have "d[i := r, i + 1 := g, i + 2 := b, i + 3 := a] = take i d @ [r, g, b, a] @ drop (i + 4) d"
    using assms
    by (intro nth_equalityI) (auto simp: nth_append nth_list_update nth_Cons' min_def)
  with assms show ?thesis
    by (simp add: store_def)
qed

lemma fill_in_range:
  "i + 4 * length cs \<le> length d \<Longrightarrow>
   fill cs i d = Inr (take i d @ rgba_all cs @ drop (i + 4 * length cs) d)"
proof (induction cs arbitrary: i d)
  case Nil
  then show ?case by (simp add: rgba_all_def)
next
  case (Cons c cs)
  let ?d4 = "take i d @ [red c, green c, blue c, 0xFF] @ drop (i + 4) d"
  from Cons.prems have r: "i + 4 \<le> length d" by simp
  from store4 [OF r, where r = "red c" and g = "green c" and b = "blue c" and a = "0xFF"
      and k = "fill cs (i + 4)"]
  have "fill (c # cs) i d = fill cs (i + 4) ?d4"
    by simp
  moreover have "i + 4 + 4 * length cs \<le> length ?d4"
    using Cons.prems by simp
  then have "fill cs (i + 4) ?d4
               = Inr (take (i + 4) ?d4 @ rgba_all cs @ drop (i + 4 + 4 * length cs) ?d4)"
    by (rule Cons.IH)
  moreover have "take (i + 4) ?d4 = take i d @ rgba c"
    using r by (simp add: rgba_def min_def)
  moreover have "drop (i + 4 + 4 * length cs) ?d4 = drop (i + 4 * length (c # cs)) d"
    using r by (simp add: min_def drop_Cons' ac_simps)
  ultimately show ?case
    by (simp add: rgba_all_def)
qed

lemma rgba_all_nth:
  "k < length cs \<Longrightarrow>
   rgba_all cs ! (4 * k) = red (cs ! k) \<and> rgba_all cs ! (4 * k + 1) = green (cs ! k)
   \<and> rgba_all cs ! (4 * k + 2) = blue (cs ! k) \<and> rgba_all cs ! (4 * k + 3) = 0xFF"
proof (induction cs arbitrary: k)
  case Nil
  then show ?case by simp
next
  case (Cons c cs)
  show ?case
  proof (cases k)
    case 0
    then show ?thesis by (simp add: rgba_all_def rgba_def)
  next
    case (Suc j)
    with Cons.prems have "j < length cs" by simp
    from Cons.IH [OF this] Suc show ?thesis
      by (simp add: rgba_all_def rgba_def nth_Cons' ac_simps)
  qed
qed

lemma create_rgb_short:
  assumes "int (length cs) \<le> sint (width sz) * sint (height sz)"
    and "sint (width sz) * sint (height sz) * 4 \<le> 2147483647"
  shows "create_rgb cs sz p =
           create (rgba_all cs @
                   replicate (nat (sint (width sz) * sint (height sz) * 4) - 4 * length cs) 0) sz p"
proof -
  let ?n = "nat (sint (width sz) * sint (height sz) * 4)"
  from assms(1) have nn: "0 \<le> sint (width sz) * sint (height sz) * 4" by linarith
  then have "- 2147483648 \<le> sint (width sz) * sint (height sz) * 4" by linarith
  then have prod: "sint (width sz * height sz * 4) = sint (width sz) * sint (height sz) * 4"
    using assms(2) by (rule sint_mult4)
  have rs: "resize (width sz * height sz * 4) = Inr (replicate ?n 0)"
    using nn by (simp add: resize_def prod)
  from assms(1) have "4 * length cs \<le> ?n" by linarith
  then have "0 + 4 * length cs \<le> length (replicate ?n (0 :: uint8_t))" by simp
  then have "fill cs 0 (replicate ?n 0)
               = Inr (take 0 (replicate ?n 0) @ rgba_all cs @ drop (0 + 4 * length cs) (replicate ?n 0))"
    by (rule fill_in_range)
  then have "fill cs 0 (replicate ?n 0) = Inr (rgba_all cs @ replicate (?n - 4 * length cs) 0)"
    by simp
  with rs show ?thesis
    by (simp add: create_rgb_def)
qed

lemma copy_range_row:
  assumes "0 < sint w" and "0 \<le> sint y" and "sint y < sint h"
    and "sint w * sint h * 4 \<le> int (length full)"
    and "sint w * sint h * 4 \<le> 2147483647"
  shows "copy_range full (y * w * 4) (w * 4)
           = Inr (take (nat (sint w) * 4) (drop (nat (sint y) * (nat (sint w) * 4)) full))"
proof -
  have "(sint y + 1) * sint w \<le> sint h * sint w"
    using assms(1,3) by (intro mult_right_mono) simp_all
  then have step: "sint y * sint w * 4 + sint w * 4 \<le> sint w * sint h * 4"
    by (simp add: algebra_simps)
  have ge: "0 \<le> sint y * sint w * 4"
    using assms(1,2) by simp
  have "sint y * sint w * 4 \<le> 2147483647"
    using step assms(1,5) by linarith
  with ge have start: "sint (y * w * 4) = sint y * sint w * 4"
    by (intro sint_mult4) linarith+
  have "sint w * 4 \<le> 2147483647"
    using step ge assms(5) by linarith
  with assms(1) have len: "sint (w * 4) = sint w * 4"
    by (intro sint_times4) linarith+
  have le: "sint y * sint w * 4 + sint w * 4 \<le> int (length full)"
    using step assms(4) by linarith
  have "nat (sint y * sint w * 4) = nat (sint y) * (nat (sint w) * 4)"
    using assms(1,2) by (simp add: nat_mult_distrib)
  moreover have "nat (sint w * 4) = nat (sint w) * 4"
    using assms(1) by (simp add: nat_mult_distrib)
  ultimately show ?thesis
    using le ge assms(1) by (simp add: copy_range_def start len)
qed

lemma data_loop_rows:
  assumes "0 < sint (width sz)" and "0 \<le> sint y" and "sint y \<le> sint (height sz)"
    and "sint (width sz) * sint (height sz) * 4 \<le> int (length full)"
    and "sint (width sz) * sint (height sz) * 4 \<le> 2147483647"
  shows "data_loop full sz y acc
           = Inr (acc @ take (nat (sint (height sz) - sint y) * (nat (sint (width sz)) * 4))
                          (drop (nat (sint y) * (nat (sint (width sz)) * 4)) full))"
  using assms
proof (induction full sz y acc rule: data_loop.induct)
  case (1 full sz y fragData)
  let ?r = "nat (sint (width sz)) * 4"
  show ?case
  proof (cases "sint y < sint (height sz)")
    case False
    with "1.prems" have "sint (height sz) - sint y = 0" by simp
    with False show ?thesis
      by (simp add: data_loop.simps [of full sz y fragData])
  next
    case True
    let ?bytes = "take ?r (drop (nat (sint y) * ?r) full)"
    have next_y: "sint (y + 1) = sint y + 1"
      using True by (rule sint_succ)
    have row: "copy_range full (y * width sz * 4) (width sz * 4) = Inr ?bytes"
      using "1.prems"(1,2) True "1.prems"(4,5) by (rule copy_range_row)
    have "data_loop full sz (y + 1) (fragData @ ?bytes)
            = Inr ((fragData @ ?bytes) @ take (nat (sint (height sz) - sint (y + 1)) * ?r)
                                           (drop (nat (sint (y + 1)) * ?r) full))"
      using True row "1.prems" next_y by (intro "1.IH") simp_all
    moreover have "nat (sint (y + 1)) * ?r = nat (sint y) * ?r + ?r"
      using "1.prems"(2) next_y by (simp add: nat_add_distrib)
    moreover have "nat (sint (height sz) - sint y) * ?r
                     = ?r + nat (sint (height sz) - sint (y + 1)) * ?r"
    proof -
      have "nat (sint (height sz) - sint y) = Suc (nat (sint (height sz) - sint (y + 1)))"
        using True next_y by simp
      then show ?thesis by simp
    qed
    ultimately have "data_loop full sz (y + 1) (fragData @ ?bytes)
            = Inr (fragData @ take (nat (sint (height sz) - sint y) * ?r)
                                   (drop (nat (sint y) * ?r) full))"
      by (simp add: take_add add.commute)
    with True row show ?thesis
      by (simp add: data_loop.simps [of full sz y fragData])
  qed
qed

lemma data_loop_result:
  assumes "0 < sint (width sz)" and "0 \<le> sint (height sz)"
    and "sint (width sz) * sint (height sz) * 4 \<le> int (length full)"
    and "sint (width sz) * sint (height sz) * 4 \<le> 2147483647"
  shows "data_loop full sz 0 [] = Inr (take (nat (sint (width sz) * sint (height sz) * 4)) full)"
proof -
  have "nat (sint (width sz) * sint (height sz) * 4)
          = nat (sint (height sz)) * (nat (sint (width sz)) * 4)"
    using assms(1,2) by (simp add: nat_mult_distrib mult.commute)
  moreover have "data_loop full sz 0 []
      = Inr ([] @ take (nat (sint (height sz) - sint (0 :: c_int)) * (nat (sint (width sz)) * 4))
                   (drop (nat (sint (0 :: c_int)) * (nat (sint (width sz)) * 4)) full))"
    using assms by (intro data_loop_rows) simp_all
  ultimately show ?thesis
    by simp
qed

lemma reserve_in_range:
  assumes "0 \<le> sint w * sint h * 4" and "sint w * sint h * 4 \<le> 2147483647"
  shows "reserve (w * h * 4) d = Inr d"
proof -
  have "sint (w * h * 4) = sint w * sint h * 4"
    using assms by (intro sint_mult4) linarith+
  with assms(1) show ?thesis by (simp add: reserve_def)
qed

lemma ImageFragment_data_prefix:
  assumes "frag_image f = Some a" and "image_at a p = Some img"
    and "0 < sint (width (frag_size f))" and "0 \<le> sint (height (frag_size f))"
    and "sint (width (frag_size f)) * sint (height (frag_size f)) * 4 \<le> int (length (img_data img))"
    and "sint (width (frag_size f)) * sint (height (frag_size f)) * 4 \<le> 2147483647"
  shows "ImageFragment_data f p
           = Inr (take (nat (sint (width (frag_size f)) * sint (height (frag_size f)) * 4))
                       (img_data img))"
proof -
  have "0 \<le> sint (width (frag_size f)) * sint (height (frag_size f)) * 4"
    using assms(3,4) by simp
  then have "reserve (width (frag_size f) * height (frag_size f) * 4) [] = Inr []"
    using assms(6) by (rule reserve_in_range)
  then show ?thesis
    using assms by (simp add: ImageFragment_data_def data_loop_result)
qed

lemma int_quot_nonneg: "0 \<le> a \<Longrightarrow> 0 < b \<Longrightarrow> int_quot a b = a div b"
  by (simp add: int_quot_def)

lemma int_div_le: "0 \<le> x \<Longrightarrow> 0 < b \<Longrightarrow> x div b \<le> (x :: int)"
  using zdiv_mono2 [of x 1 b] by simp

lemma int_quot_bounds:
  assumes "0 < b"
  shows "- \<bar>a\<bar> \<le> int_quot a b \<and> int_quot a b \<le> \<bar>a\<bar>"
proof -
  have "0 \<le> \<bar>a\<bar> div b"
    using assms by (simp add: pos_imp_zdiv_nonneg_iff)
  moreover have "\<bar>a\<bar> div b \<le> \<bar>a\<bar>"
    using assms by (intro int_div_le) simp_all
  ultimately have "- \<bar>a\<bar> \<le> \<bar>a\<bar> div b" and "- \<bar>a\<bar> \<le> - (\<bar>a\<bar> div b)"
    and "\<bar>a\<bar> div b \<le> \<bar>a\<bar>" and "- (\<bar>a\<bar> div b) \<le> \<bar>a\<bar>"
    by linarith+
  moreover from assms have "\<bar>b\<bar> = b" by simp
  ultimately show ?thesis
    unfolding int_quot_def by (simp only: split: if_split) blast
qed

lemma sint_int_quot:
  fixes a b :: c_int
  assumes "0 < sint b"
  shows "sint (word_of_int (int_quot (sint a) (sint b)) :: c_int) = int_quot (sint a) (sint b)"
proof -
  have "\<bar>sint a\<bar> \<le> 2147483648"
    using c_int_bounds [of a] by linarith
  moreover note int_quot_bounds [OF assms, of "sint a"]
  moreover have "int_quot (sint a) (sint b) \<noteq> 2147483648"
  proof
    assume top: "int_quot (sint a) (sint b) = 2147483648"
    have "sint a < 0 \<or> 0 \<le> sint a" by linarith
    then show False
    proof
      assume "sint a < 0"
      then have "int_quot (sint a) (sint b) \<le> 0"
        using assms by (simp add: int_quot_def pos_imp_zdiv_nonneg_iff)
      with top show False by simp
    next
      assume "0 \<le> sint a"
      then have "int_quot (sint a) (sint b) \<le> sint a"
        using assms by (simp add: int_quot_nonneg int_div_le)
      with top c_int_bounds [of a] show False by linarith
    qed
  qed
  ultimately have "- 2147483648 \<le> int_quot (sint a) (sint b)"
    and "int_quot (sint a) (sint b) \<le> 2147483647"
    by linarith+
  then show ?thesis by (rule sint_in_range)
qed

lemma fragment_eq:
  assumes "r_image ri = Some a" and "image_at a p = Some img" and "width (cellSpan ri) \<noteq> 0"
    and "\<not> (sint (width (img_size img)) = - 2147483648 \<and> sint (width (cellSpan ri)) = - 1)"
  shows "fragment ri pos p =
           Inr (p\<lparr>pool_images := put_image a (img\<lparr>img_refCount := img_refCount img + 1\<rparr>) (pool_images p)\<rparr>,
                \<lparr>frag_image = Some a,
                 frag_offset =
                   \<lparr>row = row pos * width (img_size img),
                    column = column pos *
                      word_of_int (int_quot (sint (width (img_size img))) (sint (width (cellSpan ri))))\<rparr>,
                 frag_size = cellSpan ri\<rparr>)"
  using assms
  by (simp add: fragment_def int_div_def Let_def ImageFragment_ctor_def ImageRef_ctor_def ref_live)







lemma count_list_replicate_same: "count_list (replicate n x) x = n"
  by (induction n) simp_all

lemma count_list_replicate_other: "x \<noteq> y \<Longrightarrow> count_list (replicate n x) y = 0"
  by (induction n) simp_all

section \<open>Creating an image from an RGBA buffer\<close>

text \<open>
  C3, as the code has it: \<open>ImagePool::create(buffer, size)\<close> compares nothing. Whatever
  the length of the buffer, the call returns a handle to a new Image that holds the
  buffer and the size as given, with reference count 1, and \<open>imageCount()\<close> is one more
  than before.
\<close>

theorem create_always_succeeds:
  "\<exists>p' a img.
     create d sz p = Inr (p', Some a)
     \<and> imageCount p' = imageCount p + 1
     \<and> image_at a p' = Some img
     \<and> img_data img = d \<and> img_size img = sz \<and> img_refCount img = 1 \<and> img_deleter img = PoolRemove"
proof -
  let ?a = "fresh_addr (pool_images p)"
  let ?img = "\<lparr>img_data = d, img_size = sz, img_deleter = PoolRemove, img_refCount = 1\<rparr>"
  let ?p' = "p\<lparr>pool_images := pool_images p @ [(?a, ?img)]\<rparr>"
  have "create d sz p = Inr (?p', Some ?a)"
    by (rule create_eq)
  moreover have "imageCount ?p' = imageCount p + 1"
    by (simp add: imageCount_def)
  moreover have "image_at ?a ?p' = Some ?img"
    unfolding image_at_def using map_of_append_fresh [OF fresh_addr_new] by simp
  ultimately show ?thesis
    by (intro exI [of _ ?p'] exI [of _ ?a] exI [of _ ?img]) simp
qed

text \<open>
  C3 as the spec states it fails: an empty buffer for a 1 x 1 image (4 bytes expected)
  is accepted, and the pool grows.
\<close>

theorem create_mismatch_counterexample:
  "int (length ([] :: Data))
     \<noteq> sint (width \<lparr>width = 1, height = 1\<rparr>) * sint (height \<lparr>width = 1, height = 1\<rparr>) * 4
   \<and> create [] \<lparr>width = 1, height = 1\<rparr> \<lparr>pool_images = []\<rparr>
       = Inr (\<lparr>pool_images = [(1, \<lparr>img_data = [], img_size = \<lparr>width = 1, height = 1\<rparr>,
                                 img_deleter = PoolRemove, img_refCount = 1\<rparr>)]\<rparr>, Some 1)
   \<and> imageCount \<lparr>pool_images = []\<rparr> = 0
   \<and> imageCount \<lparr>pool_images = [(1, \<lparr>img_data = [], img_size = \<lparr>width = 1, height = 1\<rparr>,
                                   img_deleter = PoolRemove, img_refCount = 1\<rparr>)]\<rparr> = 1"
  by (simp add: create_eq fresh_addr_def imageCount_def)

section \<open>Dropping a reference that is not counted\<close>

text \<open>
  C4, as the code has it: \<open>Image::unref\<close> checks nothing. On an Image whose count is 0
  it stores the count -1 and returns normally; the deleter is not called, whatever it
  is, and the Image stays in the pool, so \<open>imageCount()\<close> is unchanged.
\<close>

theorem unref_at_zero_goes_negative:
  assumes "image_at a p = Some img" and "img_refCount img = 0"
  shows "\<exists>p'. unref a p = Inr p'
           \<and> refCount a p' = Some (- 1)
           \<and> image_at a p' = Some (img\<lparr>img_refCount := - 1\<rparr>)
           \<and> imageCount p' = imageCount p"
proof -
  let ?p' = "p\<lparr>pool_images := put_image a (img\<lparr>img_refCount := img_refCount img - 1\<rparr>) (pool_images p)\<rparr>"
  have "unref a p = Inr ?p'"
    using assms by (simp add: unref_not_last)
  moreover have "image_at a ?p' = Some (img\<lparr>img_refCount := - 1\<rparr>)"
    using assms image_at_put_same [OF assms(1)] by simp
  moreover have "imageCount ?p' = imageCount p"
    by (simp add: imageCount_def length_put_image)
  ultimately show ?thesis
    by (simp add: refCount_def)
qed

text \<open>
  The Image that \<open>ImagePool::create\<close> has just appended, before the first handle is
  made, has count 0; \<open>unref()\<close> on it returns with the count -1.
\<close>

theorem unref_at_zero_goes_negative_witness:
  "image_at 1 (emplace_back (Image_ctor [] \<lparr>width = 0, height = 0\<rparr> PoolRemove) \<lparr>pool_images = []\<rparr>)
     = Some (Image_ctor [] \<lparr>width = 0, height = 0\<rparr> PoolRemove)
   \<and> img_refCount (Image_ctor [] \<lparr>width = 0, height = 0\<rparr> PoolRemove) = 0
   \<and> (\<exists>p'. unref 1 (emplace_back (Image_ctor [] \<lparr>width = 0, height = 0\<rparr> PoolRemove) \<lparr>pool_images = []\<rparr>) = Inr p'
          \<and> refCount 1 p' = Some (- 1)
          \<and> imageCount p' = 1)"
proof -
  let ?img = "Image_ctor [] \<lparr>width = 0, height = 0\<rparr> PoolRemove"
  let ?p = "emplace_back ?img \<lparr>pool_images = []\<rparr>"
  have at: "image_at 1 ?p = Some ?img"
    by (simp add: image_at_def emplace_back_def fresh_addr_def)
  have zero: "img_refCount ?img = 0"
    by (simp add: Image_ctor_def)
  have n: "imageCount ?p = 1"
    by (simp add: imageCount_def emplace_back_def)
  from unref_at_zero_goes_negative [OF at zero] n at zero show ?thesis
    by auto
qed

text \<open>
  C4 as the spec states it fails: the call is not fatal. \<open>unref()\<close> on an Image with
  count 0 returns, and the count it leaves is -1.
\<close>

theorem unref_underflow_counterexample:
  "unref 1 \<lparr>pool_images = [(1, \<lparr>img_data = [], img_size = \<lparr>width = 0, height = 0\<rparr>,
                                 img_deleter = PoolRemove, img_refCount = 0\<rparr>)]\<rparr>
     = Inr \<lparr>pool_images = [(1, \<lparr>img_data = [], img_size = \<lparr>width = 0, height = 0\<rparr>,
                                 img_deleter = PoolRemove, img_refCount = - 1\<rparr>)]\<rparr>"
  by (simp add: unref_def image_at_def Let_def)

section \<open>Counting references\<close>

text \<open>
  C2, as the code has it: the count is an \<open>int\<close>. Take the Image that
  \<open>ImagePool::create\<close> has made (one handle, count 1) and any history of its handles,
  \<open>N\<close> copy constructions and \<open>M\<close> destructions, each of a handle that is there, in
  which no more than 2147483647 handles refer to the Image at any time. The history
  runs without a fault. If \<open>M \<le> N\<close>, the count is then \<open>1 + N - M\<close> and \<open>imageCount()\<close> is
  what it was. Otherwise the last destruction took the count to 0: the Image is no
  longer in the pool and \<open>imageCount()\<close> is one less. For any pool, the destruction of a
  handle to an Image with count 1 returns what the one call of its deleter returns on
  the pool with the count stored as 0, and with any other count it returns the pool
  with the count one less and no deleter called.
\<close>

theorem refCount_after_copies_and_destructions:
  assumes "create d sz p = Inr (p0, Some a)" and "handles_exist 1 es"
    and "most_handles 1 es \<le> 2147483647"
  shows "(\<exists>p1. handle_events a es p0 = Inr p1 \<and>
            (if count_list es Destroy \<le> count_list es CopyConstruct
             then map_option sint (refCount a p1) =
                    Some (1 + int (count_list es CopyConstruct) - int (count_list es Destroy))
                  \<and> imageCount p1 = imageCount p0
             else image_at a p1 = None \<and> imageCount p1 = imageCount p0 - 1))
         \<and> (\<forall>q img. image_at a q = Some img \<longrightarrow>
               ImageRef_dtor (Some a) q =
                 (if img_refCount img = 1
                  then invoke (img_deleter img) a
                         (q\<lparr>pool_images := put_image a (img\<lparr>img_refCount := 0\<rparr>) (pool_images q)\<rparr>)
                  else Inr (q\<lparr>pool_images :=
                               put_image a (img\<lparr>img_refCount := img_refCount img - 1\<rparr>) (pool_images q)\<rparr>)))"
proof
  let ?xs = "pool_images p"
  let ?img = "\<lparr>img_data = d, img_size = sz, img_deleter = PoolRemove, img_refCount = 1\<rparr>"
  have new: "fresh_addr ?xs \<notin> fst ` set ?xs"
    by (rule fresh_addr_new)
  from assms(1) have a: "a = fresh_addr ?xs"
    and p0: "p0 = p\<lparr>pool_images := ?xs @ [(fresh_addr ?xs, ?img)]\<rparr>"
    unfolding create_eq by auto
  have at: "image_at a p0 = Some ?img"
    unfolding image_at_def a p0 using map_of_append_fresh [OF new] by simp
  have once: "a \<notin> fst ` set (remove_loop a (pool_images p0))"
    unfolding a p0 using new by (simp add: remove_loop_append_fresh)
  have "\<exists>p1. handle_events a es p0 = Inr p1 \<and>
           (if count_list es Destroy < 1 + count_list es CopyConstruct
            then map_option sint (refCount a p1) =
                   Some (int 1 + int (count_list es CopyConstruct) - int (count_list es Destroy))
                 \<and> imageCount p1 = imageCount p0
            else image_at a p1 = None \<and> imageCount p1 = imageCount p0 - 1)"
    by (rule handle_events_counts [OF assms(2) _ assms(3) at _ _ once]) simp_all
  then show "\<exists>p1. handle_events a es p0 = Inr p1 \<and>
            (if count_list es Destroy \<le> count_list es CopyConstruct
             then map_option sint (refCount a p1) =
                    Some (1 + int (count_list es CopyConstruct) - int (count_list es Destroy))
                  \<and> imageCount p1 = imageCount p0
             else image_at a p1 = None \<and> imageCount p1 = imageCount p0 - 1)"
    by (auto split: if_splits)
next
  show "\<forall>q img. image_at a q = Some img \<longrightarrow>
               ImageRef_dtor (Some a) q =
                 (if img_refCount img = 1
                  then invoke (img_deleter img) a
                         (q\<lparr>pool_images := put_image a (img\<lparr>img_refCount := 0\<rparr>) (pool_images q)\<rparr>)
                  else Inr (q\<lparr>pool_images :=
                               put_image a (img\<lparr>img_refCount := img_refCount img - 1\<rparr>) (pool_images q)\<rparr>))"
    by (simp add: ImageRef_dtor_def unref_last unref_not_last)
qed

text \<open>
  Two histories of the first Image of an empty pool: two copies and one destruction
  leave the count 2 and the Image in the pool; one copy and two destructions remove
  the Image, and the pool is empty again.
\<close>

theorem refCount_after_copies_and_destructions_witness:
  "create [] \<lparr>width = 0, height = 0\<rparr> \<lparr>pool_images = []\<rparr>
     = Inr (\<lparr>pool_images = [(1, \<lparr>img_data = [], img_size = \<lparr>width = 0, height = 0\<rparr>,
                                  img_deleter = PoolRemove, img_refCount = 1\<rparr>)]\<rparr>, Some 1)
   \<and> handles_exist 1 [CopyConstruct, CopyConstruct, Destroy]
   \<and> most_handles 1 [CopyConstruct, CopyConstruct, Destroy] = 3
   \<and> handles_exist 1 [CopyConstruct, Destroy, Destroy]
   \<and> most_handles 1 [CopyConstruct, Destroy, Destroy] = 2
   \<and> (\<exists>p1. handle_events 1 [CopyConstruct, CopyConstruct, Destroy]
              \<lparr>pool_images = [(1, \<lparr>img_data = [], img_size = \<lparr>width = 0, height = 0\<rparr>,
                                    img_deleter = PoolRemove, img_refCount = 1\<rparr>)]\<rparr> = Inr p1
          \<and> map_option sint (refCount 1 p1) = Some 2 \<and> imageCount p1 = 1)
   \<and> (\<exists>p1. handle_events 1 [CopyConstruct, Destroy, Destroy]
              \<lparr>pool_images = [(1, \<lparr>img_data = [], img_size = \<lparr>width = 0, height = 0\<rparr>,
                                    img_deleter = PoolRemove, img_refCount = 1\<rparr>)]\<rparr> = Inr p1
          \<and> image_at 1 p1 = None \<and> imageCount p1 = 0)"
proof -
  let ?p0 = "\<lparr>pool_images = [(1, \<lparr>img_data = [], img_size = \<lparr>width = 0, height = 0\<rparr>,
                                  img_deleter = PoolRemove, img_refCount = 1\<rparr>)]\<rparr>"
  have c: "create [] \<lparr>width = 0, height = 0\<rparr> \<lparr>pool_images = []\<rparr> = Inr (?p0, Some 1)"
    by (simp add: create_eq fresh_addr_def)
  have e1: "handles_exist 1 [CopyConstruct, CopyConstruct, Destroy]" by simp
  have m1: "most_handles 1 [CopyConstruct, CopyConstruct, Destroy] = 3" by simp
  have e2: "handles_exist 1 [CopyConstruct, Destroy, Destroy]" by simp
  have m2: "most_handles 1 [CopyConstruct, Destroy, Destroy] = 2" by simp
  have n: "imageCount ?p0 = 1" by (simp add: imageCount_def)
  have b1: "most_handles 1 [CopyConstruct, CopyConstruct, Destroy] \<le> 2147483647"
    unfolding m1 by simp
  have b2: "most_handles 1 [CopyConstruct, Destroy, Destroy] \<le> 2147483647"
    unfolding m2 by simp
  from refCount_after_copies_and_destructions [OF c e1 b1]
  have r1: "\<exists>p1. handle_events 1 [CopyConstruct, CopyConstruct, Destroy] ?p0 = Inr p1
          \<and> map_option sint (refCount 1 p1) = Some 2 \<and> imageCount p1 = 1"
    using n by simp
  from refCount_after_copies_and_destructions [OF c e2 b2]
  have r2: "\<exists>p1. handle_events 1 [CopyConstruct, Destroy, Destroy] ?p0 = Inr p1
          \<and> image_at 1 p1 = None \<and> imageCount p1 = 0"
    using n by simp
  from c e1 m1 e2 m2 r1 r2 show ?thesis by blast
qed

text \<open>
  C2 as the spec states it fails: it has no bound on the number of handles. After
  2147483647 copy constructions from the one handle of a new Image, and no
  destruction, the count should be \<open>1 + 2147483647 - 0 = 2147483648\<close>; the \<open>int\<close> that
  holds it reads -2147483648.
\<close>

theorem refCount_overflow_counterexample:
  "create [] \<lparr>width = 0, height = 0\<rparr> \<lparr>pool_images = []\<rparr>
     = Inr (\<lparr>pool_images = [(1, \<lparr>img_data = [], img_size = \<lparr>width = 0, height = 0\<rparr>,
                                  img_deleter = PoolRemove, img_refCount = 1\<rparr>)]\<rparr>, Some 1)
   \<and> handles_exist 1 (replicate 2147483647 CopyConstruct)
   \<and> count_list (replicate 2147483647 CopyConstruct) CopyConstruct = 2147483647
   \<and> count_list (replicate 2147483647 CopyConstruct) Destroy = 0
   \<and> map_option sint
        (case handle_events 1 (replicate 2147483647 CopyConstruct)
                \<lparr>pool_images = [(1, \<lparr>img_data = [], img_size = \<lparr>width = 0, height = 0\<rparr>,
                                      img_deleter = PoolRemove, img_refCount = 1\<rparr>)]\<rparr> of
           Inl e \<Rightarrow> None
         | Inr p1 \<Rightarrow> refCount 1 p1)
       = Some (- 2147483648)
   \<and> 1 + int 2147483647 - int 0 \<noteq> - 2147483648"
proof -
  let ?img = "\<lparr>img_data = [], img_size = \<lparr>width = 0, height = 0\<rparr>,
               img_deleter = PoolRemove, img_refCount = 1\<rparr>"
  let ?p0 = "\<lparr>pool_images = [(1, ?img)]\<rparr>"
  have c: "create [] \<lparr>width = 0, height = 0\<rparr> \<lparr>pool_images = []\<rparr> = Inr (?p0, Some 1)"
    by (simp add: create_eq fresh_addr_def)
  have e: "handles_exist 1 (replicate 2147483647 CopyConstruct)"
    by (rule handles_exist_copies) simp
  have n: "count_list (replicate 2147483647 CopyConstruct) CopyConstruct = 2147483647"
    by (rule count_list_replicate_same)
  have m: "count_list (replicate 2147483647 CopyConstruct) Destroy = 0"
    by (rule count_list_replicate_other) simp
  have at: "image_at 1 ?p0 = Some ?img"
    by (simp add: image_at_def)
  have run: "handle_events 1 (replicate 2147483647 CopyConstruct) ?p0 =
      Inr (?p0\<lparr>pool_images :=
             put_image 1 (?img\<lparr>img_refCount := img_refCount ?img + of_nat 2147483647\<rparr>)
               (pool_images ?p0)\<rparr>)"
    using at by (rule handle_events_copies)
  have r: "map_option sint
        (case handle_events 1 (replicate 2147483647 CopyConstruct) ?p0 of
           Inl e \<Rightarrow> None
         | Inr p1 \<Rightarrow> refCount 1 p1)
       = Some (- 2147483648)"
    unfolding run by (simp add: refCount_def image_at_def)
  from c e n m r show ?thesis by simp
qed

section \<open>Move assignment\<close>

text \<open>
  C10: let the handle \<open>h\<close> refer to the Image \<open>A\<close> and the handle \<open>r\<close> to another Image
  or to none. The move assignment \<open>h = move(r)\<close> leaves the pool as it is, so the count
  of \<open>A\<close> is unchanged; afterwards \<open>h\<close> holds what \<open>r\<close> held and \<open>r\<close> holds nothing, so
  destroying \<open>h\<close> then does not change the count of \<open>A\<close> either: the reference that \<open>h\<close>
  held on \<open>A\<close> is never given back. Destroying \<open>h\<close> instead of assigning to it, or
  copy assigning \<open>r\<close> (a handle to a live Image) to it, does take one off the count of
  \<open>A\<close> (stated for a count other than 1, where \<open>A\<close> stays in the pool).
\<close>

theorem move_assign_keeps_old_count:
  assumes "refs w h = Some A" and "refs w r \<noteq> Some A"
  shows "pool (ImageRef_move_assign h r w) = pool w
         \<and> refCount A (pool (ImageRef_move_assign h r w)) = refCount A (pool w)
         \<and> refs (ImageRef_move_assign h r w) h = refs w r
         \<and> refs (ImageRef_move_assign h r w) r = None
         \<and> (\<forall>p'. ImageRef_dtor (refs (ImageRef_move_assign h r w) h)
                    (pool (ImageRef_move_assign h r w)) = Inr p'
                  \<longrightarrow> refCount A p' = refCount A (pool w))
         \<and> (\<forall>img. image_at A (pool w) = Some img \<and> img_refCount img \<noteq> 1
                  \<longrightarrow> (\<exists>p'. ImageRef_dtor (refs w h) (pool w) = Inr p'
                             \<and> refCount A p' = Some (img_refCount img - 1)))
         \<and> (\<forall>img B imgB. image_at A (pool w) = Some img \<and> img_refCount img \<noteq> 1
                    \<and> refs w r = Some B \<and> image_at B (pool w) = Some imgB
                  \<longrightarrow> (\<exists>w'. ImageRef_copy_assign h r w = Inr w'
                             \<and> refCount A (pool w') = Some (img_refCount img - 1)
                             \<and> refs w' h = Some B))"
proof -
  from assms have ne: "r \<noteq> h" by auto
  let ?w = "ImageRef_move_assign h r w"
  have same: "pool ?w = pool w"
    by (simp add: ImageRef_move_assign_def)
  have h: "refs ?w h = refs w r"
    using ne by (simp add: ImageRef_move_assign_def)
  have r: "refs ?w r = None"
    using ne by (simp add: ImageRef_move_assign_def)
  have later: "refCount A p' = refCount A (pool w)"
    if run: "ImageRef_dtor (refs ?w h) (pool ?w) = Inr p'" for p'
  proof (cases "refs w r")
    case None
    with run h same show ?thesis by (simp add: ImageRef_dtor_def)
  next
    case (Some B)
    with assms(2) have "A \<noteq> B" by auto
    moreover from run h same Some have "unref B (pool w) = Inr p'"
      by (simp add: ImageRef_dtor_def)
    ultimately have "image_at A p' = image_at A (pool w)"
      by (rule image_at_unref_other [rotated])
    then show ?thesis by (simp add: refCount_def)
  qed
  have dtor: "\<exists>p'. ImageRef_dtor (refs w h) (pool w) = Inr p'
                  \<and> refCount A p' = Some (img_refCount img - 1)"
    if "image_at A (pool w) = Some img" and "img_refCount img \<noteq> 1" for img
    using that assms(1) image_at_put_same [OF that(1)]
    by (simp add: ImageRef_dtor_def unref_not_last refCount_def)
  have copy: "\<exists>w'. ImageRef_copy_assign h r w = Inr w'
                  \<and> refCount A (pool w') = Some (img_refCount img - 1)
                  \<and> refs w' h = Some B"
    if at: "image_at A (pool w) = Some img" and n1: "img_refCount img \<noteq> 1"
      and rB: "refs w r = Some B" and atB: "image_at B (pool w) = Some imgB" for img B imgB
  proof -
    let ?img' = "img\<lparr>img_refCount := img_refCount img - 1\<rparr>"
    let ?p1 = "(pool w)\<lparr>pool_images := put_image A ?img' (pool_images (pool w))\<rparr>"
    let ?imgB' = "imgB\<lparr>img_refCount := img_refCount imgB + 1\<rparr>"
    let ?p2 = "?p1\<lparr>pool_images := put_image B ?imgB' (pool_images ?p1)\<rparr>"
    from rB assms(2) have AB: "B \<noteq> A" by auto
    have u: "unref A (pool w) = Inr ?p1"
      using at n1 by (rule unref_not_last)
    have "image_at B ?p1 = Some imgB"
      using atB image_at_put_other [OF AB] by simp
    then have f: "ref B ?p1 = Inr ?p2"
      by (rule ref_live)
    have "image_at A ?p1 = Some ?img'"
      using at by (rule image_at_put_same)
    moreover have "image_at A ?p2 = image_at A ?p1"
      using f AB [symmetric] by (rule image_at_ref_other)
    ultimately have cnt: "refCount A ?p2 = Some (img_refCount img - 1)"
      by (simp add: refCount_def)
    have "ImageRef_copy_assign h r w = Inr (w\<lparr>pool := ?p2, refs := (refs w)(h := Some B)\<rparr>)"
      unfolding ImageRef_copy_assign_def using ne assms(1) rB u f by simp
    with cnt show ?thesis by simp
  qed
  from same h r later dtor copy show ?thesis
    by (simp only:) blast
qed

text \<open>
  Two Images with one handle each, \<open>h\<close> at location 0 on Image 1 and \<open>r\<close> at location 1
  on Image 2: after \<open>h = move(r)\<close> the pool is the same, Image 1 still has count 1, and
  no handle refers to it.
\<close>

theorem move_assign_keeps_old_count_witness:
  "refs \<lparr>pool = \<lparr>pool_images =
            [(1, \<lparr>img_data = [], img_size = \<lparr>width = 0, height = 0\<rparr>,
                   img_deleter = PoolRemove, img_refCount = 1\<rparr>),
             (2, \<lparr>img_data = [], img_size = \<lparr>width = 0, height = 0\<rparr>,
                   img_deleter = PoolRemove, img_refCount = 1\<rparr>)]\<rparr>,
          refs = (\<lambda>_. None)(0 := Some 1, 1 := Some 2)\<rparr> 0 = Some 1
   \<and> refs \<lparr>pool = \<lparr>pool_images =
            [(1, \<lparr>img_data = [], img_size = \<lparr>width = 0, height = 0\<rparr>,
                   img_deleter = PoolRemove, img_refCount = 1\<rparr>),
             (2, \<lparr>img_data = [], img_size = \<lparr>width = 0, height = 0\<rparr>,
                   img_deleter = PoolRemove, img_refCount = 1\<rparr>)]\<rparr>,
          refs = (\<lambda>_. None)(0 := Some 1, 1 := Some 2)\<rparr> 1 = Some 2
   \<and> refCount 1 (pool (ImageRef_move_assign 0 1
        \<lparr>pool = \<lparr>pool_images =
            [(1, \<lparr>img_data = [], img_size = \<lparr>width = 0, height = 0\<rparr>,
                   img_deleter = PoolRemove, img_refCount = 1\<rparr>),
             (2, \<lparr>img_data = [], img_size = \<lparr>width = 0, height = 0\<rparr>,
                   img_deleter = PoolRemove, img_refCount = 1\<rparr>)]\<rparr>,
          refs = (\<lambda>_. None)(0 := Some 1, 1 := Some 2)\<rparr>)) = Some 1
   \<and> refs (ImageRef_move_assign 0 1
        \<lparr>pool = \<lparr>pool_images =
            [(1, \<lparr>img_data = [], img_size = \<lparr>width = 0, height = 0\<rparr>,
                   img_deleter = PoolRemove, img_refCount = 1\<rparr>),
             (2, \<lparr>img_data = [], img_size = \<lparr>width = 0, height = 0\<rparr>,
                   img_deleter = PoolRemove, img_refCount = 1\<rparr>)]\<rparr>,
          refs = (\<lambda>_. None)(0 := Some 1, 1 := Some 2)\<rparr>) 0 = Some 2
   \<and> refs (ImageRef_move_assign 0 1
        \<lparr>pool = \<lparr>pool_images =
            [(1, \<lparr>img_data = [], img_size = \<lparr>width = 0, height = 0\<rparr>,
                   img_deleter = PoolRemove, img_refCount = 1\<rparr>),
             (2, \<lparr>img_data = [], img_size = \<lparr>width = 0, height = 0\<rparr>,
                   img_deleter = PoolRemove, img_refCount = 1\<rparr>)]\<rparr>,
          refs = (\<lambda>_. None)(0 := Some 1, 1 := Some 2)\<rparr>) 1 = None"
proof -
  let ?w = "\<lparr>pool = \<lparr>pool_images =
            [(1, \<lparr>img_data = [], img_size = \<lparr>width = 0, height = 0\<rparr>,
                   img_deleter = PoolRemove, img_refCount = 1\<rparr>),
             (2, \<lparr>img_data = [], img_size = \<lparr>width = 0, height = 0\<rparr>,
                   img_deleter = PoolRemove, img_refCount = 1\<rparr>)]\<rparr>,
          refs = (\<lambda>_. None)(0 := Some (1::nat), 1 := Some 2)\<rparr>"
  have h: "refs ?w 0 = Some 1" by simp
  have r: "refs ?w 1 \<noteq> Some 1" by simp
  have r2: "refs ?w 1 = Some 2" by simp
  have c: "refCount 1 (pool ?w) = Some 1" by (simp add: refCount_def image_at_def)
  from move_assign_keeps_old_count [OF h r] h r2 c show ?thesis
    by simp
qed

section \<open>Creating an image from RGB colours: the results\<close>

text \<open>
  C8, as the code has it: the length of the buffer, \<open>size.width * size.height * 4\<close>, is
  computed in \<open>int\<close>. For a colour array with as many colours as the size has pixels,
  and a size for which that length is at most 2147483647,
  \<open>ImagePool::create(colorArray, size)\<close> succeeds; the new Image has the size given, its
  buffer is the array with every colour expanded to the four bytes red, green, blue,
  255, and so every pixel's alpha byte is 255.
\<close>

theorem create_rgb_expands_to_opaque_rgba:
  assumes "int (length cs) = sint (width sz) * sint (height sz)"
    and "sint (width sz) * sint (height sz) * 4 \<le> 2147483647"
  shows "\<exists>p' a img.
           create_rgb cs sz p = Inr (p', Some a)
           \<and> image_at a p' = Some img
           \<and> img_size img = sz
           \<and> img_data img = rgba_all cs
           \<and> length (img_data img) = 4 * length cs
           \<and> (\<forall>k < length cs.
                 img_data img ! (4 * k) = red (cs ! k)
                 \<and> img_data img ! (4 * k + 1) = green (cs ! k)
                 \<and> img_data img ! (4 * k + 2) = blue (cs ! k)
                 \<and> img_data img ! (4 * k + 3) = 0xFF)"
proof -
  from assms(1) have "int (length cs) \<le> sint (width sz) * sint (height sz)" by simp
  then have "create_rgb cs sz p =
      create (rgba_all cs @
              replicate (nat (sint (width sz) * sint (height sz) * 4) - 4 * length cs) 0) sz p"
    using assms(2) by (rule create_rgb_short)
  moreover from assms(1)
  have "nat (sint (width sz) * sint (height sz) * 4) - 4 * length cs = 0" by linarith
  ultimately have eq: "create_rgb cs sz p = create (rgba_all cs) sz p" by simp
  let ?a = "fresh_addr (pool_images p)"
  let ?img = "\<lparr>img_data = rgba_all cs, img_size = sz, img_deleter = PoolRemove, img_refCount = 1\<rparr>"
  let ?p' = "p\<lparr>pool_images := pool_images p @ [(?a, ?img)]\<rparr>"
  have "create_rgb cs sz p = Inr (?p', Some ?a)"
    unfolding eq by (rule create_eq)
  moreover have "image_at ?a ?p' = Some ?img"
    unfolding image_at_def using map_of_append_fresh [OF fresh_addr_new] by simp
  moreover have "\<forall>k < length cs.
                 rgba_all cs ! (4 * k) = red (cs ! k)
                 \<and> rgba_all cs ! (4 * k + 1) = green (cs ! k)
                 \<and> rgba_all cs ! (4 * k + 2) = blue (cs ! k)
                 \<and> rgba_all cs ! (4 * k + 3) = 0xFF"
    using rgba_all_nth by blast
  ultimately show ?thesis
    by (intro exI [of _ ?p'] exI [of _ ?a] exI [of _ ?img]) (simp add: length_rgba_all)
qed

text \<open>A 2 x 1 image from two colours, in the empty pool.\<close>

theorem create_rgb_expands_to_opaque_rgba_witness:
  "int (length [\<lparr>red = 1, green = 2, blue = 3\<rparr>, \<lparr>red = 4, green = 5, blue = 6\<rparr>])
     = sint (width \<lparr>width = 2, height = 1\<rparr>) * sint (height \<lparr>width = 2, height = 1\<rparr>)
   \<and> sint (width \<lparr>width = 2, height = 1\<rparr>) * sint (height \<lparr>width = 2, height = 1\<rparr>) * 4
       \<le> 2147483647
   \<and> (\<exists>p' a img.
        create_rgb [\<lparr>red = 1, green = 2, blue = 3\<rparr>, \<lparr>red = 4, green = 5, blue = 6\<rparr>]
          \<lparr>width = 2, height = 1\<rparr> \<lparr>pool_images = []\<rparr> = Inr (p', Some a)
        \<and> image_at a p' = Some img
        \<and> img_size img = \<lparr>width = 2, height = 1\<rparr>
        \<and> img_data img = [1, 2, 3, 0xFF, 4, 5, 6, 0xFF])"
proof -
  let ?cs = "[\<lparr>red = 1, green = 2, blue = 3\<rparr>, \<lparr>red = 4, green = 5, blue = 6\<rparr>]"
  let ?sz = "\<lparr>width = 2, height = 1\<rparr>"
  have len: "int (length ?cs) = sint (width ?sz) * sint (height ?sz)" by simp
  have fits: "sint (width ?sz) * sint (height ?sz) * 4 \<le> 2147483647" by simp
  have quads: "rgba_all ?cs = [1, 2, 3, 0xFF, 4, 5, 6, 0xFF]"
    by (simp add: rgba_all_def rgba_def)
  from create_rgb_expands_to_opaque_rgba [OF len fits, of "\<lparr>pool_images = []\<rparr>"] len fits quads
  show ?thesis by auto
qed

text \<open>
  C8 as the spec states it fails: it has no bound on the size. For 536870912 colours
  and the size 32768 x 16384, which has that many pixels, the length
  \<open>32768 * 16384 * 4\<close> is 2147483648 and the \<open>int\<close> reads -2147483648; \<open>resize\<close> throws, and
  no image is made.
\<close>

theorem create_rgb_overflow_counterexample:
  "int (length (replicate 536870912 \<lparr>red = 0, green = 0, blue = 0\<rparr>))
     = sint (width \<lparr>width = 32768, height = 16384\<rparr>) * sint (height \<lparr>width = 32768, height = 16384\<rparr>)
   \<and> sint (width \<lparr>width = 32768, height = 16384\<rparr> * height \<lparr>width = 32768, height = 16384\<rparr> * 4)
       = - 2147483648
   \<and> create_rgb (replicate 536870912 \<lparr>red = 0, green = 0, blue = 0\<rparr>)
        \<lparr>width = 32768, height = 16384\<rparr> \<lparr>pool_images = []\<rparr> = Inl LengthError"
  by (simp add: create_rgb_def resize_def)

text \<open>
  C7, as the code has it: \<open>ImagePool::create(colorArray, size)\<close> compares nothing. The
  buffer is made \<open>size.width * size.height * 4\<close> zero bytes long, a length computed in
  \<open>int\<close>, and the colours are written from its start. With no more colours than the size
  has pixels, and a size for which that length is at most 2147483647, the call
  succeeds: the new Image holds the quads of the colours followed by the zero bytes
  left, and \<open>imageCount()\<close> is one more than before.
\<close>

theorem create_rgb_short_array_succeeds:
  assumes "int (length cs) \<le> sint (width sz) * sint (height sz)"
    and "sint (width sz) * sint (height sz) * 4 \<le> 2147483647"
  shows "\<exists>p' a img.
           create_rgb cs sz p = Inr (p', Some a)
           \<and> imageCount p' = imageCount p + 1
           \<and> image_at a p' = Some img
           \<and> img_size img = sz
           \<and> img_data img =
               rgba_all cs @
               replicate (nat (sint (width sz) * sint (height sz) * 4) - 4 * length cs) 0
           \<and> int (length (img_data img)) = sint (width sz) * sint (height sz) * 4"
proof -
  let ?d = "rgba_all cs @
            replicate (nat (sint (width sz) * sint (height sz) * 4) - 4 * length cs) 0"
  let ?a = "fresh_addr (pool_images p)"
  let ?img = "\<lparr>img_data = ?d, img_size = sz, img_deleter = PoolRemove, img_refCount = 1\<rparr>"
  let ?p' = "p\<lparr>pool_images := pool_images p @ [(?a, ?img)]\<rparr>"
  have "create_rgb cs sz p = create ?d sz p"
    using assms by (rule create_rgb_short)
  then have "create_rgb cs sz p = Inr (?p', Some ?a)"
    by (simp add: create_eq)
  moreover have "imageCount ?p' = imageCount p + 1"
    by (simp add: imageCount_def)
  moreover have "image_at ?a ?p' = Some ?img"
    unfolding image_at_def using map_of_append_fresh [OF fresh_addr_new] by simp
  moreover have "int (length ?d) = sint (width sz) * sint (height sz) * 4"
    using assms(1) by (simp add: length_rgba_all)
  ultimately show ?thesis
    by (intro exI [of _ ?p'] exI [of _ ?a] exI [of _ ?img]) simp
qed

text \<open>One colour for a 2 x 1 image: the second pixel is four zero bytes.\<close>

theorem create_rgb_short_array_succeeds_witness:
  "int (length [\<lparr>red = 1, green = 2, blue = 3\<rparr>])
     \<le> sint (width \<lparr>width = 2, height = 1\<rparr>) * sint (height \<lparr>width = 2, height = 1\<rparr>)
   \<and> sint (width \<lparr>width = 2, height = 1\<rparr>) * sint (height \<lparr>width = 2, height = 1\<rparr>) * 4
       \<le> 2147483647
   \<and> (\<exists>p' a img.
        create_rgb [\<lparr>red = 1, green = 2, blue = 3\<rparr>] \<lparr>width = 2, height = 1\<rparr> \<lparr>pool_images = []\<rparr>
          = Inr (p', Some a)
        \<and> imageCount p' = 1
        \<and> image_at a p' = Some img
        \<and> img_data img = [1, 2, 3, 0xFF, 0, 0, 0, 0])"
proof -
  let ?cs = "[\<lparr>red = 1, green = 2, blue = 3\<rparr>]"
  let ?sz = "\<lparr>width = 2, height = 1\<rparr>"
  have len: "int (length ?cs) \<le> sint (width ?sz) * sint (height ?sz)" by simp
  have fits: "sint (width ?sz) * sint (height ?sz) * 4 \<le> 2147483647" by simp
  have d: "rgba_all ?cs @ replicate (nat (sint (width ?sz) * sint (height ?sz) * 4) - 4 * length ?cs) 0
             = [1, 2, 3, 0xFF, 0, 0, 0, 0]"
    by (simp add: rgba_all_def rgba_def numeral_eq_Suc)
  have n: "imageCount \<lparr>pool_images = []\<rparr> = 0" by (simp add: imageCount_def)
  from create_rgb_short_array_succeeds [OF len fits, of "\<lparr>pool_images = []\<rparr>"] len fits d n
  show ?thesis by auto
qed

text \<open>
  C7 as the spec states it fails. One colour for a 2 x 1 image is a length mismatch,
  and the call returns a handle to a new Image in the pool. One colour for a
  65536 x 65536 image is a length mismatch too: the length \<open>65536 * 65536 * 4\<close> reads 0
  as an \<open>int\<close>, the buffer is empty, and the first store is past its end.
\<close>

theorem create_rgb_mismatch_counterexample:
  "int (length [\<lparr>red = 1, green = 2, blue = 3\<rparr>])
     \<noteq> sint (width \<lparr>width = 2, height = 1\<rparr>) * sint (height \<lparr>width = 2, height = 1\<rparr>)
   \<and> create_rgb [\<lparr>red = 1, green = 2, blue = 3\<rparr>] \<lparr>width = 2, height = 1\<rparr> \<lparr>pool_images = []\<rparr>
       = Inr (\<lparr>pool_images = [(1, \<lparr>img_data = [1, 2, 3, 0xFF, 0, 0, 0, 0],
                                     img_size = \<lparr>width = 2, height = 1\<rparr>,
                                     img_deleter = PoolRemove, img_refCount = 1\<rparr>)]\<rparr>, Some 1)
   \<and> imageCount \<lparr>pool_images = []\<rparr> = 0
   \<and> imageCount \<lparr>pool_images = [(1, \<lparr>img_data = [1, 2, 3, 0xFF, 0, 0, 0, 0],
                                       img_size = \<lparr>width = 2, height = 1\<rparr>,
                                       img_deleter = PoolRemove, img_refCount = 1\<rparr>)]\<rparr> = 1
   \<and> int (length [\<lparr>red = 1, green = 2, blue = 3\<rparr>])
       < sint (width \<lparr>width = 65536, height = 65536\<rparr>) * sint (height \<lparr>width = 65536, height = 65536\<rparr>)
   \<and> sint (width \<lparr>width = 65536, height = 65536\<rparr> * height \<lparr>width = 65536, height = 65536\<rparr> * 4) = 0
   \<and> create_rgb [\<lparr>red = 1, green = 2, blue = 3\<rparr>] \<lparr>width = 65536, height = 65536\<rparr>
        \<lparr>pool_images = []\<rparr> = Inl OutOfBoundsAccess"
  by (simp add: create_rgb_def resize_def store_def create_eq fresh_addr_def imageCount_def
      numeral_eq_Suc)

section \<open>The bytes of a fragment\<close>

text \<open>
  What \<open>ImageFragment::data()\<close> computes: row \<open>y\<close> is read at byte \<open>y * size.width * 4\<close>
  of the parent's buffer, so neither the offset of the fragment nor the width of the
  parent has a part in it. For a fragment of positive width and non-negative height
  whose parent's buffer holds at least \<open>size.width * size.height * 4\<close> bytes, a number
  that an \<open>int\<close> holds, the result is a new buffer of exactly that many bytes, the first
  that many of the parent's.
\<close>

lemma fragment_data_reads_parent_prefix:
  assumes "frag_image f = Some a" and "image_at a p = Some img"
    and "0 < sint (width (frag_size f))" and "0 \<le> sint (height (frag_size f))"
    and "sint (width (frag_size f)) * sint (height (frag_size f)) * 4 \<le> int (length (img_data img))"
    and "sint (width (frag_size f)) * sint (height (frag_size f)) * 4 \<le> 2147483647"
  shows "\<exists>buf. ImageFragment_data f p = Inr buf
           \<and> buf = take (nat (sint (width (frag_size f)) * sint (height (frag_size f)) * 4))
                      (img_data img)
           \<and> int (length buf) = sint (width (frag_size f)) * sint (height (frag_size f)) * 4
           \<and> (\<forall>y < nat (sint (height (frag_size f))).
                 take (nat (sint (width (frag_size f))) * 4)
                      (drop (y * (nat (sint (width (frag_size f))) * 4)) buf)
                   = take (nat (sint (width (frag_size f))) * 4)
                       (drop (y * (nat (sint (width (frag_size f))) * 4)) (img_data img)))"
proof -
  let ?w = "sint (width (frag_size f))" and ?h = "sint (height (frag_size f))"
  let ?r = "nat ?w * 4"
  let ?n = "nat (?w * ?h * 4)"
  let ?buf = "take ?n (img_data img)"
  have run: "ImageFragment_data f p = Inr ?buf"
    using assms by (rule ImageFragment_data_prefix)
  have nn: "0 \<le> ?w * ?h * 4"
    using assms(3,4) by simp
  then have len: "int (length ?buf) = ?w * ?h * 4"
    using assms(5) by simp
  have n: "?n = nat ?h * ?r"
    using assms(3,4) by (simp add: nat_mult_distrib mult.commute)
  have rows: "take ?r (drop (y * ?r) ?buf) = take ?r (drop (y * ?r) (img_data img))"
    if "y < nat ?h" for y
  proof -
    from that have "Suc y \<le> nat ?h" by simp
    then have "Suc y * ?r \<le> nat ?h * ?r" by (rule mult_le_mono1)
    then have "?r + y * ?r \<le> nat ?h * ?r" by simp
    then have "?r \<le> ?n - y * ?r" unfolding n by linarith
    then show ?thesis by (simp add: drop_take min_def)
  qed
  from run len rows show ?thesis by blast
qed

text \<open>
  C1: the \<open>y\<close>-th row of \<open>ImageFragment::data()\<close> should be the \<open>size.width * 4\<close> bytes of
  the parent's buffer from byte \<open>(offset.row + y) * parentWidth * 4\<close> on. The code does
  not do that. In the image 2 wide and 2 high with the bytes 0 to 15, the fragment
  1 x 1 at the offset (row 1, column 0) should have as its row 0 the 4 bytes from byte
  \<open>(1 + 0) * 2 * 4 = 8\<close> on, which are 8, 9, 10, 11; \<open>data()\<close> returns 0, 1, 2, 3, the 4
  bytes from byte 0 on.
\<close>

theorem fragment_data_ignores_offset:
  "ImageFragment_data
     \<lparr>frag_image = Some 1, frag_offset = \<lparr>row = 1, column = 0\<rparr>, frag_size = \<lparr>width = 1, height = 1\<rparr>\<rparr>
     \<lparr>pool_images = [(1, \<lparr>img_data = [0, 1, 2, 3, 4, 5, 6, 7, 8, 9, 10, 11, 12, 13, 14, 15],
                          img_size = \<lparr>width = 2, height = 2\<rparr>,
                          img_deleter = PoolRemove, img_refCount = 1\<rparr>)]\<rparr>
     = Inr [0, 1, 2, 3]
   \<and> take (nat (1 * 4)) (drop (nat ((1 + 0) * 2 * 4))
        [0, 1, 2, 3, 4, 5, 6, 7, 8, 9, 10, 11, 12, 13, 14, 15 :: uint8_t]) = [8, 9, 10, 11]
   \<and> [0, 1, 2, 3] \<noteq> [8, 9, 10, 11 :: uint8_t]"
  by (simp add: ImageFragment_data_def image_at_def reserve_def data_loop.simps copy_range_def)

section \<open>The fragment of a grid cell\<close>

text \<open>
  C5, as the code has it: \<open>RasterizedImage::fragment\<close> compares the position with
  nothing, and computes in \<open>int\<close>. For a live image and a cell span whose width is not 0
  (and not -1 under an image width of -2147483648) it returns, for every position, in
  range or not, a fragment of the image with the pixel offset
  \<open>(position.row * image.width(), position.column * (image.width() / cellSpan.width))\<close>
  as \<open>int\<close> computes it, and the size \<open>cellSpan\<close>, and the image has one reference more.
  Where a product is a number that an \<open>int\<close> holds, the component of the offset is that
  number. When the cell span has positive width and non-negative height and the
  image's buffer holds at least \<open>cellSpan.width * cellSpan.height * 4\<close> bytes, a number
  that an \<open>int\<close> holds, \<open>data()\<close> of that fragment is a buffer of exactly that many bytes.
\<close>

theorem fragment_for_any_position:
  assumes "r_image ri = Some a" and "image_at a p = Some img" and "width (cellSpan ri) \<noteq> 0"
    and "\<not> (sint (width (img_size img)) = - 2147483648 \<and> sint (width (cellSpan ri)) = - 1)"
  shows "\<exists>p' f.
           fragment ri pos p = Inr (p', f)
           \<and> frag_image f = Some a
           \<and> frag_offset f =
               \<lparr>row = row pos * width (img_size img),
                column = column pos *
                  word_of_int (int_quot (sint (width (img_size img))) (sint (width (cellSpan ri))))\<rparr>
           \<and> frag_size f = cellSpan ri
           \<and> refCount a p' = Some (img_refCount img + 1)
           \<and> (- 2147483648 \<le> sint (row pos) * sint (width (img_size img))
                \<and> sint (row pos) * sint (width (img_size img)) \<le> 2147483647
              \<longrightarrow> sint (row (frag_offset f)) = sint (row pos) * sint (width (img_size img)))
           \<and> (0 < sint (width (cellSpan ri))
                \<and> - 2147483648 \<le> sint (column pos)
                      * int_quot (sint (width (img_size img))) (sint (width (cellSpan ri)))
                \<and> sint (column pos)
                      * int_quot (sint (width (img_size img))) (sint (width (cellSpan ri)))
                    \<le> 2147483647
              \<longrightarrow> sint (column (frag_offset f)) =
                    sint (column pos)
                      * int_quot (sint (width (img_size img))) (sint (width (cellSpan ri))))
           \<and> (0 < sint (width (cellSpan ri)) \<and> 0 \<le> sint (height (cellSpan ri))
                \<and> sint (width (cellSpan ri)) * sint (height (cellSpan ri)) * 4
                    \<le> int (length (img_data img))
                \<and> sint (width (cellSpan ri)) * sint (height (cellSpan ri)) * 4 \<le> 2147483647
              \<longrightarrow> (\<exists>buf. ImageFragment_data f p' = Inr buf
                         \<and> int (length buf) =
                             sint (width (cellSpan ri)) * sint (height (cellSpan ri)) * 4))"
proof -
  let ?W = "width (img_size img)"
  let ?u = "word_of_int (int_quot (sint ?W) (sint (width (cellSpan ri)))) :: c_int"
  let ?img' = "img\<lparr>img_refCount := img_refCount img + 1\<rparr>"
  let ?p' = "p\<lparr>pool_images := put_image a ?img' (pool_images p)\<rparr>"
  let ?f = "\<lparr>frag_image = Some a,
             frag_offset = \<lparr>row = row pos * ?W, column = column pos * ?u\<rparr>,
             frag_size = cellSpan ri\<rparr>"
  have run: "fragment ri pos p = Inr (?p', ?f)"
    using assms by (rule fragment_eq)
  have at: "image_at a ?p' = Some ?img'"
    using assms(2) by (rule image_at_put_same)
  then have cnt: "refCount a ?p' = Some (img_refCount img + 1)"
    by (simp add: refCount_def)
  have rows: "sint (row (frag_offset ?f)) = sint (row pos) * sint ?W"
    if "- 2147483648 \<le> sint (row pos) * sint ?W" and "sint (row pos) * sint ?W \<le> 2147483647"
    using that by (simp add: sint_mult)
  have cols: "sint (column (frag_offset ?f)) =
                sint (column pos) * int_quot (sint ?W) (sint (width (cellSpan ri)))"
    if pos: "0 < sint (width (cellSpan ri))"
      and "- 2147483648 \<le> sint (column pos) * int_quot (sint ?W) (sint (width (cellSpan ri)))"
      and "sint (column pos) * int_quot (sint ?W) (sint (width (cellSpan ri))) \<le> 2147483647"
  proof -
    have u: "sint ?u = int_quot (sint ?W) (sint (width (cellSpan ri)))"
      using pos by (rule sint_int_quot)
    have "sint (column pos * ?u) = sint (column pos) * sint ?u"
      using that(2,3) by (intro sint_mult) (simp_all only: u)
    with u show ?thesis by simp
  qed
  have bytes: "\<exists>buf. ImageFragment_data ?f ?p' = Inr buf
                  \<and> int (length buf) = sint (width (cellSpan ri)) * sint (height (cellSpan ri)) * 4"
    if "0 < sint (width (cellSpan ri))" and "0 \<le> sint (height (cellSpan ri))"
      and "sint (width (cellSpan ri)) * sint (height (cellSpan ri)) * 4 \<le> int (length (img_data img))"
      and "sint (width (cellSpan ri)) * sint (height (cellSpan ri)) * 4 \<le> 2147483647"
  proof -
    have "0 \<le> sint (width (cellSpan ri)) * sint (height (cellSpan ri)) * 4"
      using that(1,2) by simp
    moreover have "ImageFragment_data ?f ?p'
        = Inr (take (nat (sint (width (frag_size ?f)) * sint (height (frag_size ?f)) * 4))
                 (img_data ?img'))"
      using at that by (intro ImageFragment_data_prefix) simp_all
    ultimately show ?thesis
      using that(3) by simp
  qed
  from run cnt rows cols bytes show ?thesis
    by (intro exI [of _ ?p'] exI [of _ ?f]) (simp only: ImageFragment.simps, blast)
qed

text \<open>
  The image 2 wide and 2 high spans one cell. The position (row 5, column 7) is not a
  cell of it, and \<open>fragment\<close> returns a fragment at the offset (10, 14) all the same.
\<close>

theorem fragment_for_any_position_witness:
  "r_image \<lparr>r_image = Some 1, cellSpan = \<lparr>width = 1, height = 1\<rparr>,
            alignmentPolicy = TopStart, resizePolicy = NoResize\<rparr> = Some 1
   \<and> image_at 1 \<lparr>pool_images = [(1, \<lparr>img_data = [0, 1, 2, 3, 4, 5, 6, 7, 8, 9, 10, 11, 12, 13, 14, 15],
                                      img_size = \<lparr>width = 2, height = 2\<rparr>,
                                      img_deleter = PoolRemove, img_refCount = 1\<rparr>)]\<rparr>
       = Some \<lparr>img_data = [0, 1, 2, 3, 4, 5, 6, 7, 8, 9, 10, 11, 12, 13, 14, 15],
               img_size = \<lparr>width = 2, height = 2\<rparr>,
               img_deleter = PoolRemove, img_refCount = 1\<rparr>
   \<and> (\<exists>p' f.
        fragment \<lparr>r_image = Some 1, cellSpan = \<lparr>width = 1, height = 1\<rparr>,
                  alignmentPolicy = TopStart, resizePolicy = NoResize\<rparr>
          \<lparr>row = 5, column = 7\<rparr>
          \<lparr>pool_images = [(1, \<lparr>img_data = [0, 1, 2, 3, 4, 5, 6, 7, 8, 9, 10, 11, 12, 13, 14, 15],
                               img_size = \<lparr>width = 2, height = 2\<rparr>,
                               img_deleter = PoolRemove, img_refCount = 1\<rparr>)]\<rparr> = Inr (p', f)
        \<and> frag_offset f = \<lparr>row = 10, column = 14\<rparr>
        \<and> frag_size f = \<lparr>width = 1, height = 1\<rparr>
        \<and> refCount 1 p' = Some 2
        \<and> (\<exists>buf. ImageFragment_data f p' = Inr buf \<and> int (length buf) = 4))"
proof -
  let ?img = "\<lparr>img_data = [0, 1, 2, 3, 4, 5, 6, 7, 8, 9, 10, 11, 12, 13, 14, 15 :: uint8_t],
               img_size = \<lparr>width = 2, height = 2\<rparr>,
               img_deleter = PoolRemove, img_refCount = 1\<rparr>"
  let ?p = "\<lparr>pool_images = [(1, ?img)]\<rparr>"
  let ?ri = "\<lparr>r_image = Some 1, cellSpan = \<lparr>width = 1, height = 1\<rparr>,
              alignmentPolicy = TopStart, resizePolicy = NoResize\<rparr>"
  have 1: "r_image ?ri = Some 1" by simp
  have 2: "image_at 1 ?p = Some ?img" by (simp add: image_at_def)
  have 3: "width (cellSpan ?ri) \<noteq> 0" by simp
  have 4: "\<not> (sint (width (img_size ?img)) = - 2147483648 \<and> sint (width (cellSpan ?ri)) = - 1)"
    by simp
  have t: "int_quot 2 1 = 2" by (simp add: int_quot_def)
  from fragment_for_any_position [OF 1 2 3 4, of "\<lparr>row = 5, column = 7\<rparr>"] 1 2 t
  show ?thesis by simp blast
qed

text \<open>
  C5 as the spec states it fails, in several ways. For the position (row 5, column 7),
  outside the one cell of the span, \<open>fragment\<close> does not fail; it returns a fragment.
  For the image 1 x 1 of 4 bytes spanning 2 x 2 cells and the position (0, 0), in
  range, \<open>data()\<close> of the fragment returned does not have \<open>2 * 2 * 4\<close> bytes: it reads
  past the end of the buffer. For the image 65536 wide spanning 1 x 65536 cells and
  the position (row 32768, column 0), in range, the row of the offset is not
  \<open>32768 * 65536 = 2147483648\<close>: the \<open>int\<close> reads -2147483648. And where the division
  \<open>image.width() / cellSpan.width\<close> is undefined, by 0 or of -2147483648 by -1, the call
  neither returns a fragment nor reports that the position is out of range.
\<close>

theorem fragment_out_of_range_counterexample:
  "\<not> (sint (row \<lparr>row = 5, column = 7\<rparr>) < sint (height \<lparr>width = 1, height = 1\<rparr>))
   \<and> fragment \<lparr>r_image = Some 1, cellSpan = \<lparr>width = 1, height = 1\<rparr>,
                alignmentPolicy = TopStart, resizePolicy = NoResize\<rparr>
        \<lparr>row = 5, column = 7\<rparr>
        \<lparr>pool_images = [(1, \<lparr>img_data = [0, 1, 2, 3, 4, 5, 6, 7, 8, 9, 10, 11, 12, 13, 14, 15],
                             img_size = \<lparr>width = 2, height = 2\<rparr>,
                             img_deleter = PoolRemove, img_refCount = 1\<rparr>)]\<rparr>
     = Inr (\<lparr>pool_images = [(1, \<lparr>img_data = [0, 1, 2, 3, 4, 5, 6, 7, 8, 9, 10, 11, 12, 13, 14, 15],
                                  img_size = \<lparr>width = 2, height = 2\<rparr>,
                                  img_deleter = PoolRemove, img_refCount = 2\<rparr>)]\<rparr>,
            \<lparr>frag_image = Some 1, frag_offset = \<lparr>row = 10, column = 14\<rparr>,
             frag_size = \<lparr>width = 1, height = 1\<rparr>\<rparr>)
   \<and> fragment \<lparr>r_image = Some 1, cellSpan = \<lparr>width = 2, height = 2\<rparr>,
                alignmentPolicy = TopStart, resizePolicy = NoResize\<rparr>
        \<lparr>row = 0, column = 0\<rparr>
        \<lparr>pool_images = [(1, \<lparr>img_data = [0, 1, 2, 3], img_size = \<lparr>width = 1, height = 1\<rparr>,
                             img_deleter = PoolRemove, img_refCount = 1\<rparr>)]\<rparr>
     = Inr (\<lparr>pool_images = [(1, \<lparr>img_data = [0, 1, 2, 3], img_size = \<lparr>width = 1, height = 1\<rparr>,
                                  img_deleter = PoolRemove, img_refCount = 2\<rparr>)]\<rparr>,
            \<lparr>frag_image = Some 1, frag_offset = \<lparr>row = 0, column = 0\<rparr>,
             frag_size = \<lparr>width = 2, height = 2\<rparr>\<rparr>)
   \<and> ImageFragment_data
        \<lparr>frag_image = Some 1, frag_offset = \<lparr>row = 0, column = 0\<rparr>,
         frag_size = \<lparr>width = 2, height = 2\<rparr>\<rparr>
        \<lparr>pool_images = [(1, \<lparr>img_data = [0, 1, 2, 3], img_size = \<lparr>width = 1, height = 1\<rparr>,
                             img_deleter = PoolRemove, img_refCount = 2\<rparr>)]\<rparr>
     = Inl OutOfBoundsAccess
   \<and> sint (row \<lparr>row = 32768, column = 0\<rparr>) < sint (height \<lparr>width = 1, height = 65536\<rparr>)
   \<and> sint (column \<lparr>row = 32768, column = 0\<rparr>) < sint (width \<lparr>width = 1, height = 65536\<rparr>)
   \<and> fragment \<lparr>r_image = Some 1, cellSpan = \<lparr>width = 1, height = 65536\<rparr>,
                alignmentPolicy = TopStart, resizePolicy = NoResize\<rparr>
        \<lparr>row = 32768, column = 0\<rparr>
        \<lparr>pool_images = [(1, \<lparr>img_data = replicate 262144 0, img_size = \<lparr>width = 65536, height = 1\<rparr>,
                             img_deleter = PoolRemove, img_refCount = 1\<rparr>)]\<rparr>
     = Inr (\<lparr>pool_images = [(1, \<lparr>img_data = replicate 262144 0,
                                  img_size = \<lparr>width = 65536, height = 1\<rparr>,
                                  img_deleter = PoolRemove, img_refCount = 2\<rparr>)]\<rparr>,
            \<lparr>frag_image = Some 1, frag_offset = \<lparr>row = 2147483648, column = 0\<rparr>,
             frag_size = \<lparr>width = 1, height = 65536\<rparr>\<rparr>)
   \<and> sint (2147483648 :: c_int) = - 2147483648
   \<and> sint (32768 :: c_int) * sint (65536 :: c_int) = 2147483648
   \<and> fragment \<lparr>r_image = Some 1, cellSpan = \<lparr>width = 0, height = 1\<rparr>,
                alignmentPolicy = TopStart, resizePolicy = NoResize\<rparr>
        \<lparr>row = 0, column = 0\<rparr>
        \<lparr>pool_images = [(1, \<lparr>img_data = [0, 1, 2, 3], img_size = \<lparr>width = 1, height = 1\<rparr>,
                             img_deleter = PoolRemove, img_refCount = 1\<rparr>)]\<rparr>
     = Inl DivisionByZero
   \<and> fragment \<lparr>r_image = Some 1, cellSpan = \<lparr>width = - 1, height = 1\<rparr>,
                alignmentPolicy = TopStart, resizePolicy = NoResize\<rparr>
        \<lparr>row = 0, column = 0\<rparr>
        \<lparr>pool_images = [(1, \<lparr>img_data = [], img_size = \<lparr>width = - 2147483648, height = 0\<rparr>,
                             img_deleter = PoolRemove, img_refCount = 1\<rparr>)]\<rparr>
     = Inl DivisionOverflow"
  by (simp add: fragment_def image_at_def int_div_def int_quot_def Let_def
      ImageFragment_ctor_def ImageRef_ctor_def ref_def
      ImageFragment_data_def reserve_def data_loop.simps copy_range_def)

section \<open>The pixel size of a grid cell\<close>

text \<open>
  C6: for a \<open>RasterizedImage\<close> on a live image whose cell span has both dimensions
  strictly positive, \<open>cellSize()\<close> returns the quotients, truncated towards zero, of the
  widths and of the heights; for an image of non-negative dimensions these are
  \<open>image.width() div cellSpan.width\<close> and \<open>image.height() div cellSpan.height\<close>. With a
  dimension of the span 0 it fails with \<open>InvalidCellSpan\<close>.
\<close>

theorem cellSize_divides_per_axis:
  assumes "r_image ri = Some a" and "image_at a p = Some img"
  shows "(0 < sint (width (cellSpan ri)) \<and> 0 < sint (height (cellSpan ri)) \<longrightarrow>
            (\<exists>sz. cellSize ri p = Inr sz
               \<and> sint (width sz) = int_quot (sint (width (img_size img))) (sint (width (cellSpan ri)))
               \<and> sint (height sz) = int_quot (sint (height (img_size img))) (sint (height (cellSpan ri)))))
         \<and> (0 < sint (width (cellSpan ri)) \<and> 0 < sint (height (cellSpan ri))
              \<and> 0 \<le> sint (width (img_size img)) \<and> 0 \<le> sint (height (img_size img)) \<longrightarrow>
            (\<exists>sz. cellSize ri p = Inr sz
               \<and> sint (width sz) = sint (width (img_size img)) div sint (width (cellSpan ri))
               \<and> sint (height sz) = sint (height (img_size img)) div sint (height (cellSpan ri))))
         \<and> (width (cellSpan ri) = 0 \<or> height (cellSpan ri) = 0 \<longrightarrow>
            cellSize ri p = Inl InvalidCellSpan)"
proof -
  let ?sz = "\<lparr>width = word_of_int (int_quot (sint (width (img_size img))) (sint (width (cellSpan ri)))),
              height = word_of_int (int_quot (sint (height (img_size img))) (sint (height (cellSpan ri))))\<rparr>"
  have quot: "cellSize ri p = Inr ?sz
      \<and> sint (width ?sz) = int_quot (sint (width (img_size img))) (sint (width (cellSpan ri)))
      \<and> sint (height ?sz) = int_quot (sint (height (img_size img))) (sint (height (cellSpan ri)))"
    if w: "0 < sint (width (cellSpan ri))" and h: "0 < sint (height (cellSpan ri))"
  proof -
    from w have "width (cellSpan ri) \<noteq> 0" by auto
    moreover from h have "height (cellSpan ri) \<noteq> 0" by auto
    ultimately have "cellSize ri p = Inr ?sz"
      using assms by (simp add: cellSize_def Size_div_def)
    then show ?thesis
      using sint_int_quot [OF w] sint_int_quot [OF h] by simp
  qed
  have zero: "cellSize ri p = Inl InvalidCellSpan"
    if "width (cellSpan ri) = 0 \<or> height (cellSpan ri) = 0"
    using that assms by (auto simp: cellSize_def Size_div_def)
  from quot zero show ?thesis
    by (auto simp: int_quot_nonneg)
qed

text \<open>
  An image 8 x 8 spanning 3 x 2 cells: a cell is 2 pixels wide and 4 high. The same
  image with a span 0 cells wide: \<open>InvalidCellSpan\<close>.
\<close>

theorem cellSize_divides_per_axis_witness:
  "r_image \<lparr>r_image = Some 1, cellSpan = \<lparr>width = 3, height = 2\<rparr>,
            alignmentPolicy = TopStart, resizePolicy = NoResize\<rparr> = Some 1
   \<and> image_at 1 \<lparr>pool_images = [(1, \<lparr>img_data = replicate 256 0, img_size = \<lparr>width = 8, height = 8\<rparr>,
                                      img_deleter = PoolRemove, img_refCount = 1\<rparr>)]\<rparr>
       = Some \<lparr>img_data = replicate 256 0, img_size = \<lparr>width = 8, height = 8\<rparr>,
               img_deleter = PoolRemove, img_refCount = 1\<rparr>
   \<and> (\<exists>sz. cellSize \<lparr>r_image = Some 1, cellSpan = \<lparr>width = 3, height = 2\<rparr>,
                      alignmentPolicy = TopStart, resizePolicy = NoResize\<rparr>
              \<lparr>pool_images = [(1, \<lparr>img_data = replicate 256 0, img_size = \<lparr>width = 8, height = 8\<rparr>,
                                   img_deleter = PoolRemove, img_refCount = 1\<rparr>)]\<rparr> = Inr sz
          \<and> sint (width sz) = 2 \<and> sint (height sz) = 4)
   \<and> cellSize \<lparr>r_image = Some 1, cellSpan = \<lparr>width = 0, height = 2\<rparr>,
                alignmentPolicy = TopStart, resizePolicy = NoResize\<rparr>
        \<lparr>pool_images = [(1, \<lparr>img_data = replicate 256 0, img_size = \<lparr>width = 8, height = 8\<rparr>,
                             img_deleter = PoolRemove, img_refCount = 1\<rparr>)]\<rparr>
       = Inl InvalidCellSpan"
proof -
  let ?img = "\<lparr>img_data = replicate 256 (0 :: uint8_t), img_size = \<lparr>width = 8, height = 8\<rparr>,
               img_deleter = PoolRemove, img_refCount = 1\<rparr>"
  let ?p = "\<lparr>pool_images = [(1, ?img)]\<rparr>"
  let ?ri = "\<lparr>r_image = Some 1, cellSpan = \<lparr>width = 3, height = 2\<rparr>,
              alignmentPolicy = TopStart, resizePolicy = NoResize\<rparr>"
  let ?rz = "\<lparr>r_image = Some 1, cellSpan = \<lparr>width = 0, height = 2\<rparr>,
              alignmentPolicy = TopStart, resizePolicy = NoResize\<rparr>"
  have 1: "r_image ?ri = Some 1" by simp
  have z: "r_image ?rz = Some 1" by simp
  have 2: "image_at 1 ?p = Some ?img" by (simp add: image_at_def)
  from cellSize_divides_per_axis [OF 1 2]
  have a: "\<exists>sz. cellSize ?ri ?p = Inr sz \<and> sint (width sz) = 2 \<and> sint (height sz) = 4"
    by simp
  from cellSize_divides_per_axis [OF z 2]
  have b: "cellSize ?rz ?p = Inl InvalidCellSpan"
    by simp
  from 1 2 a b show ?thesis by blast
qed

section \<open>Clearing the renderer's cache\<close>




end
